theory Spec2Isabelle
  imports Complex_Main
begin

section \<open>Coupled Hopf oscillator network for hexapod locomotion\<close>

text \<open>
  A shallow embedding of the class \<^verbatim>\<open>CoupledOscillatorNetwork\<close> as it appears in
  \<^verbatim>\<open>cpg_network.py\<close> (the plain network), \<^verbatim>\<open>cpg_loconetwork.py\<close> (the network with
  direction and turning control), \<^verbatim>\<open>cpg_network_loco.py\<close> (a cut of the same class
  without \<^verbatim>\<open>update\<close> and \<^verbatim>\<open>reset\<close>) and \<^verbatim>\<open>ledlocotest.py\<close> (the copy used by the LED
  controller).

  Conventions of the model:
  \<^item> a Python \<^verbatim>\<open>float\<close> (numpy \<^verbatim>\<open>float64\<close>) is a \<^typ>\<open>real\<close> and \<^verbatim>\<open>np.pi\<close> is \<^term>\<open>pi\<close>;
  \<^item> a numpy vector is a \<^typ>\<open>real list\<close>, a numpy matrix a list of rows;
  \<^item> a method mutates \<^verbatim>\<open>self\<close>: the model takes the object and returns the new one;
  \<^item> a raised exception is \<open>Inl\<close>. For a method of a live object the exception carries
    the object as the raise leaves it, since the caller may catch it and go on;
  \<^item> the methods that call each other recursively take the number \<open>d\<close> of Python stack
    frames still available: a call with none left raises \<^verbatim>\<open>RecursionError\<close>.
\<close>

subsection \<open>Data model\<close>

datatype error = RecursionError | ValueError | IndexError

text \<open>The fields of \<^verbatim>\<open>cpg_network.py\<close>; \<^verbatim>\<open>self.n\<close> is the field \<open>n_oscillators\<close>.\<close>

record plain_network =
  n_oscillators :: nat
  amplitude :: real
  omega :: real
  mu :: real
  state :: "real list"
  coupling_weights :: "real list list"
  phase_biases :: "real list list"
  last_update_time :: real

text \<open>The fields that \<^verbatim>\<open>cpg_loconetwork.py\<close> adds.\<close>

record network = plain_network +
  base_frequency :: real
  frequencies :: "real list"
  amplitudes :: "real list"
  current_gait :: string
  direction_phase :: real
  turning :: bool
  turning_direction :: "string option"
  turning_factor :: real

type_synonym 'a result = "(error \<times> network) + 'a"

subsection \<open>Arrays\<close>

text \<open>\<^verbatim>\<open>np.zeros((r, c))\<close>, \<^verbatim>\<open>m[i, j]\<close> and \<^verbatim>\<open>m[i, j] = v\<close>.\<close>

definition zeros2 :: "nat \<Rightarrow> nat \<Rightarrow> real list list" where
  "zeros2 r c = replicate r (replicate c 0)"

definition get2 :: "real list list \<Rightarrow> nat \<Rightarrow> nat \<Rightarrow> real" where
  "get2 m i j = m ! i ! j"

definition set2 :: "real list list \<Rightarrow> nat \<Rightarrow> nat \<Rightarrow> real \<Rightarrow> real list list" where
  "set2 m i j v = m[i := (m ! i)[j := v]]"

text \<open>Python's \<^verbatim>\<open>x % y\<close> on floats: the result takes the sign of the divisor.\<close>

definition py_mod :: "real \<Rightarrow> real \<Rightarrow> real" where
  "py_mod x y = x - y * of_int \<lfloor>x / y\<rfloor>"

subsection \<open>Gait generator\<close>

text \<open>
  The body of the double loop of \<^verbatim>\<open>set_tripod_gait\<close> at the index pair \<open>(i, j)\<close>.
\<close>

definition tripod_cell :: "real \<Rightarrow> nat \<Rightarrow> nat \<Rightarrow> network \<Rightarrow> network" where
  "tripod_cell coupling_strength i j s =
     (if i \<noteq> j then
        let same_tripod = (i mod 2 = j mod 2) in
        s\<lparr>coupling_weights := set2 (coupling_weights s) i j coupling_strength,
          phase_biases := set2 (phase_biases s) i j (if same_tripod then 0 else pi)\<rparr>
      else s)"

text \<open>
  The body of the double loop of \<^verbatim>\<open>set_wave_gait\<close>; \<^verbatim>\<open>(j - i) % self.n\<close> is Python's
  integer remainder, which is never negative for a positive \<^verbatim>\<open>self.n\<close>.
\<close>

definition wave_cell :: "real \<Rightarrow> nat \<Rightarrow> nat \<Rightarrow> network \<Rightarrow> network" where
  "wave_cell coupling_strength i j s =
     (if i \<noteq> j then
        let phase_diff = (2 * pi / real (n_oscillators s)) *
                         of_int ((int j - int i) mod int (n_oscillators s)) in
        s\<lparr>coupling_weights := set2 (coupling_weights s) i j coupling_strength,
          phase_biases := set2 (phase_biases s) i j phase_diff\<rparr>
      else s)"

text \<open>
  \<^verbatim>\<open>for i in range(self.n): for j in range(self.n): body\<close>.
\<close>

definition for_pairs :: "(nat \<Rightarrow> nat \<Rightarrow> network \<Rightarrow> network) \<Rightarrow> network \<Rightarrow> network" where
  "for_pairs body s =
     fold (\<lambda>i. fold (\<lambda>j. body i j) [0..<n_oscillators s]) [0..<n_oscillators s] s"

text \<open>
  \<^verbatim>\<open>set_tripod_gait\<close> and \<^verbatim>\<open>set_wave_gait\<close> of \<^verbatim>\<open>cpg_network_loco.py\<close>: the gait is
  stored, the direction reset on request, both matrices rebuilt. These functions end
  there.
\<close>

definition set_tripod_gait_nl :: "real \<Rightarrow> bool \<Rightarrow> network \<Rightarrow> network" where
  "set_tripod_gait_nl coupling_strength reset_direction s =
     (let s1 = s\<lparr>current_gait := ''tripod''\<rparr>;
          s2 = (if reset_direction then s1\<lparr>direction_phase := 0\<rparr> else s1);
          s3 = s2\<lparr>coupling_weights := zeros2 (n_oscillators s2) (n_oscillators s2),
                  phase_biases := zeros2 (n_oscillators s2) (n_oscillators s2)\<rparr>
      in for_pairs (tripod_cell coupling_strength) s3)"

definition set_wave_gait_nl :: "real \<Rightarrow> bool \<Rightarrow> network \<Rightarrow> network" where
  "set_wave_gait_nl coupling_strength reset_direction s =
     (let s1 = s\<lparr>current_gait := ''wave''\<rparr>;
          s2 = (if reset_direction then s1\<lparr>direction_phase := 0\<rparr> else s1);
          s3 = s2\<lparr>coupling_weights := zeros2 (n_oscillators s2) (n_oscillators s2),
                  phase_biases := zeros2 (n_oscillators s2) (n_oscillators s2)\<rparr>
      in for_pairs (wave_cell coupling_strength) s3)"

subsection \<open>Direction modulator\<close>

text \<open>
  The second half of \<^verbatim>\<open>_update_phase_relationships\<close>: when moving backward, the
  direction phase is added to every off-diagonal phase bias, modulo \<open>2\<pi>\<close>.
\<close>

definition shift_cell :: "nat \<Rightarrow> nat \<Rightarrow> network \<Rightarrow> network" where
  "shift_cell i j s =
     (if i \<noteq> j then
        s\<lparr>phase_biases := set2 (phase_biases s) i j
             (py_mod (get2 (phase_biases s) i j + direction_phase s) (2 * pi))\<rparr>
      else s)"

definition apply_direction :: "network \<Rightarrow> network" where
  "apply_direction s = (if direction_phase s \<noteq> 0 then for_pairs shift_cell s else s)"

text \<open>
  \<^verbatim>\<open>cpg_network_loco.py\<close>: \<^verbatim>\<open>_update_phase_relationships\<close> rebuilds the current gait with
  the default coupling strength \<open>1.0\<close> and then applies the direction;
  \<^verbatim>\<open>set_backward\<close> stores the direction phase and calls it.
\<close>

definition update_phase_relationships_nl :: "network \<Rightarrow> network" where
  "update_phase_relationships_nl s =
     (let s1 = (if current_gait s = ''tripod'' then set_tripod_gait_nl 1 False s
                else if current_gait s = ''wave'' then set_wave_gait_nl 1 False s
                else s)
      in apply_direction s1)"

definition set_backward_nl :: "bool \<Rightarrow> network \<Rightarrow> network" where
  "set_backward_nl backward s =
     update_phase_relationships_nl (s\<lparr>direction_phase := (if backward then pi else 0)\<rparr>)"

definition set_forward_nl :: "network \<Rightarrow> network" where
  "set_forward_nl s = set_backward_nl False s"

text \<open>
  \<^verbatim>\<open>cpg_loconetwork.py\<close> (and \<^verbatim>\<open>ledlocotest.py\<close>): the gait setters have the body above
  and then end with
  \<^verbatim>\<open>if self.direction_phase != 0: self._update_phase_relationships()\<close>,
  while \<^verbatim>\<open>_update_phase_relationships\<close> starts by calling the setter of the current
  gait with \<^verbatim>\<open>reset_direction=False\<close>. The three methods call each other, so each takes
  the number of stack frames left.
\<close>

fun set_tripod_gait :: "nat \<Rightarrow> real \<Rightarrow> bool \<Rightarrow> network \<Rightarrow> network result"
  and set_wave_gait :: "nat \<Rightarrow> real \<Rightarrow> bool \<Rightarrow> network \<Rightarrow> network result"
  and update_phase_relationships :: "nat \<Rightarrow> network \<Rightarrow> network result"
where
  "set_tripod_gait 0 coupling_strength reset_direction s = Inl (RecursionError, s)"
| "set_tripod_gait (Suc d) coupling_strength reset_direction s =
     (let s1 = set_tripod_gait_nl coupling_strength reset_direction s in
      if direction_phase s1 \<noteq> 0 then update_phase_relationships d s1 else Inr s1)"
| "set_wave_gait 0 coupling_strength reset_direction s = Inl (RecursionError, s)"
| "set_wave_gait (Suc d) coupling_strength reset_direction s =
     (let s1 = set_wave_gait_nl coupling_strength reset_direction s in
      if direction_phase s1 \<noteq> 0 then update_phase_relationships d s1 else Inr s1)"
| "update_phase_relationships 0 s = Inl (RecursionError, s)"
| "update_phase_relationships (Suc d) s =
     (case (if current_gait s = ''tripod'' then set_tripod_gait d 1 False s
            else if current_gait s = ''wave'' then set_wave_gait d 1 False s
            else Inr s) of
        Inl e \<Rightarrow> Inl e
      | Inr s1 \<Rightarrow> Inr (apply_direction s1))"

fun set_backward :: "nat \<Rightarrow> bool \<Rightarrow> network \<Rightarrow> network result" where
  "set_backward 0 backward s = Inl (RecursionError, s)"
| "set_backward (Suc d) backward s =
     update_phase_relationships d (s\<lparr>direction_phase := (if backward then pi else 0)\<rparr>)"

fun set_forward :: "nat \<Rightarrow> network \<Rightarrow> network result" where
  "set_forward 0 s = Inl (RecursionError, s)"
| "set_forward (Suc d) s = set_backward d False s"

subsection \<open>Turning modulator\<close>

text \<open>
  \<^verbatim>\<open>turn_right\<close>, \<^verbatim>\<open>turn_left\<close> and \<^verbatim>\<open>stop_turning\<close> are the same in the three files that
  have them. \<^verbatim>\<open>self.amplitudes\<close> and \<^verbatim>\<open>self.frequencies\<close> are created with
  \<^verbatim>\<open>self.n\<close> entries and only ever written entry by entry, so the loops below stay in
  range (lemma \<open>reachable_lengths\<close>).
\<close>

definition turn_right :: "real \<Rightarrow> network \<Rightarrow> network" where
  "turn_right factor s =
     (let tf = max 0 (min 1 factor);
          s1 = s\<lparr>turning := True, turning_direction := Some ''right'', turning_factor := tf\<rparr>
      in fold (\<lambda>i t.
           if i mod 2 = 0 then
             t\<lparr>amplitudes := (amplitudes t)[i := amplitude t * (1 - tf * 0.5)],
               frequencies := (frequencies t)[i := base_frequency t * (1 - tf * 0.3)]\<rparr>
           else
             t\<lparr>amplitudes := (amplitudes t)[i := amplitude t * (1 + tf * 0.5)],
               frequencies := (frequencies t)[i := base_frequency t * (1 + tf * 0.3)]\<rparr>)
         [0..<n_oscillators s1] s1)"

definition turn_left :: "real \<Rightarrow> network \<Rightarrow> network" where
  "turn_left factor s =
     (let tf = max 0 (min 1 factor);
          s1 = s\<lparr>turning := True, turning_direction := Some ''left'', turning_factor := tf\<rparr>
      in fold (\<lambda>i t.
           if i mod 2 = 0 then
             t\<lparr>amplitudes := (amplitudes t)[i := amplitude t * (1 + tf * 0.5)],
               frequencies := (frequencies t)[i := base_frequency t * (1 + tf * 0.3)]\<rparr>
           else
             t\<lparr>amplitudes := (amplitudes t)[i := amplitude t * (1 - tf * 0.5)],
               frequencies := (frequencies t)[i := base_frequency t * (1 - tf * 0.3)]\<rparr>)
         [0..<n_oscillators s1] s1)"

text \<open>The loop shared by \<^verbatim>\<open>stop_turning\<close> and \<^verbatim>\<open>reset\<close>.\<close>

definition restore_base :: "network \<Rightarrow> network" where
  "restore_base s =
     fold (\<lambda>i t. t\<lparr>amplitudes := (amplitudes t)[i := amplitude t],
                    frequencies := (frequencies t)[i := base_frequency t]\<rparr>)
       [0..<n_oscillators s] s"

definition stop_turning :: "network \<Rightarrow> network" where
  "stop_turning s =
     restore_base (s\<lparr>turning := False, turning_direction := None, turning_factor := 0\<rparr>)"

subsection \<open>Construction and reset\<close>

text \<open>
  \<^verbatim>\<open>np.zeros(2 * self.n)\<close> followed by the loop that sets every x component to \<open>0.1\<close>.
\<close>

definition seed_state :: "nat \<Rightarrow> real list" where
  "seed_state k = fold (\<lambda>i st. st[2 * i := 0.1]) [0..<k] (replicate (2 * k) 0)"

text \<open>
  \<^verbatim>\<open>reset\<close> of \<^verbatim>\<open>cpg_loconetwork.py\<close>; \<open>now\<close> is the reading of \<^verbatim>\<open>time.time()\<close>.
\<close>

definition reset :: "real \<Rightarrow> network \<Rightarrow> network" where
  "reset now s =
     (let s1 = s\<lparr>state := seed_state (n_oscillators s), last_update_time := now\<rparr>;
          s2 = restore_base s1
      in s2\<lparr>turning := False, turning_direction := None, turning_factor := 0\<rparr>)"

text \<open>\<^verbatim>\<open>reset\<close> of \<^verbatim>\<open>ledlocotest.py\<close>, which ends after the restoring loop.\<close>

definition reset_led :: "real \<Rightarrow> network \<Rightarrow> network" where
  "reset_led now s =
     (let s1 = s\<lparr>state := seed_state (n_oscillators s), last_update_time := now\<rparr>
      in restore_base s1)"

text \<open>
  \<^verbatim>\<open>__init__\<close> of \<^verbatim>\<open>cpg_loconetwork.py\<close>. Nothing checks \<^verbatim>\<open>n_oscillators\<close>; a negative
  value makes \<^verbatim>\<open>np.zeros\<close> raise \<^verbatim>\<open>ValueError\<close> before the object exists, so this error
  carries no object. \<open>blank_net\<close> is the object after the assignments of the
  constructor, which then ends with \<^verbatim>\<open>self.set_tripod_gait()\<close>.
\<close>

definition blank_net :: "nat \<Rightarrow> real \<Rightarrow> real \<Rightarrow> real \<Rightarrow> real \<Rightarrow> network" where
  "blank_net k amp frequency mu0 now =
     \<lparr>n_oscillators = k, amplitude = amp, omega = 2 * pi * frequency,
      mu = mu0, state = seed_state k,
      coupling_weights = zeros2 k k,
      phase_biases = zeros2 k k,
      last_update_time = now,
      base_frequency = frequency,
      frequencies = map (\<lambda>one. one * frequency) (replicate k 1),
      amplitudes = map (\<lambda>one. one * amp) (replicate k 1),
      current_gait = ''tripod'', direction_phase = 0,
      turning = False, turning_direction = None, turning_factor = 0\<rparr>"

definition init_net :: "nat \<Rightarrow> int \<Rightarrow> real \<Rightarrow> real \<Rightarrow> real \<Rightarrow> real \<Rightarrow> error + network" where
  "init_net d n amp frequency mu0 now =
     (if n < 0 then Inl ValueError
      else case set_tripod_gait d 1 True (blank_net (nat n) amp frequency mu0 now) of
             Inl (e, _) \<Rightarrow> Inl e
           | Inr s' \<Rightarrow> Inr s')"

subsection \<open>Oscillator dynamics\<close>

text \<open>
  One round of the inner loop of \<^verbatim>\<open>equations\<close> (the coupling of oscillator \<open>i\<close> to
  oscillator \<open>j\<close>), the same text in every file.
\<close>

definition coupling_step ::
  "'a plain_network_scheme \<Rightarrow> real list \<Rightarrow> nat \<Rightarrow> nat \<Rightarrow> real \<times> real \<Rightarrow> real \<times> real" where
  "coupling_step p st i j acc =
     (case acc of (dx_i, dy_i) \<Rightarrow>
        if i \<noteq> j \<and> get2 (coupling_weights p) i j \<noteq> 0 then
          let x_i = st ! (2 * i); y_i = st ! (2 * i + 1);
              x_j = st ! (2 * j); y_j = st ! (2 * j + 1);
              phase_bias = get2 (phase_biases p) i j;
              coupling_term_x = x_j * cos phase_bias - y_j * sin phase_bias;
              coupling_term_y = x_j * sin phase_bias + y_j * cos phase_bias
          in (dx_i + get2 (coupling_weights p) i j * (coupling_term_x - x_i),
              dy_i + get2 (coupling_weights p) i j * (coupling_term_y - y_i))
        else (dx_i, dy_i))"

text \<open>The body of the outer loop in \<^verbatim>\<open>cpg_network.py\<close>: one global amplitude and \<open>\<omega>\<close>.\<close>

definition oscillator_plain :: "'a plain_network_scheme \<Rightarrow> real list \<Rightarrow> nat \<Rightarrow> real \<times> real" where
  "oscillator_plain p st i =
     (let x_i = st ! (2 * i); y_i = st ! (2 * i + 1);
          r_squared = x_i ^ 2 + y_i ^ 2;
          dx_i = mu p * (amplitude p - r_squared) * x_i - omega p * y_i;
          dy_i = mu p * (amplitude p - r_squared) * y_i + omega p * x_i
      in fold (coupling_step p st i) [0..<n_oscillators p] (dx_i, dy_i))"

text \<open>
  The body of the outer loop in \<^verbatim>\<open>cpg_loconetwork.py\<close>: the amplitude and frequency of
  oscillator \<open>i\<close> are read from the per-oscillator arrays.
\<close>

definition oscillator :: "network \<Rightarrow> real list \<Rightarrow> nat \<Rightarrow> real \<times> real" where
  "oscillator s st i =
     (let x_i = st ! (2 * i); y_i = st ! (2 * i + 1);
          local_omega = 2 * pi * (frequencies s ! i);
          local_amplitude = amplitudes s ! i;
          r_squared = x_i ^ 2 + y_i ^ 2;
          dx_i = mu s * (local_amplitude - r_squared) * x_i - local_omega * y_i;
          dy_i = mu s * (local_amplitude - r_squared) * y_i + local_omega * x_i
      in fold (coupling_step s st i) [0..<n_oscillators s] (dx_i, dy_i))"

text \<open>
  \<^verbatim>\<open>equations(state, t)\<close>: the derivative vector has the shape of the state vector; a
  state vector with fewer than \<open>2n\<close> entries makes an index fail.
\<close>

definition store_derivative :: "(nat \<Rightarrow> real \<times> real) \<Rightarrow> nat \<Rightarrow> real list \<Rightarrow> real list" where
  "store_derivative f i derivatives =
     (case f i of (dx_i, dy_i) \<Rightarrow> derivatives[2 * i := dx_i, 2 * i + 1 := dy_i])"

definition equations_plain ::
  "'a plain_network_scheme \<Rightarrow> real list \<Rightarrow> real \<Rightarrow> error + real list" where
  "equations_plain p st t =
     (if length st < 2 * n_oscillators p then Inl IndexError
      else Inr (fold (store_derivative (oscillator_plain p st)) [0..<n_oscillators p]
                  (replicate (length st) 0)))"

definition equations :: "network \<Rightarrow> real list \<Rightarrow> real \<Rightarrow> error + real list" where
  "equations s st t =
     (if length st < 2 * n_oscillators s then Inl IndexError
      else Inr (fold (store_derivative (oscillator s st)) [0..<n_oscillators s]
                  (replicate (length st) 0)))"

subsection \<open>One tick\<close>

text \<open>
  \<^verbatim>\<open>scipy.integrate.odeint\<close> is not part of the program: it is a parameter \<open>integ\<close>
  that takes the derivative function, the initial vector and the list of time points
  and returns one vector per time point, or the error the derivative function raised.
\<close>

type_synonym integrator =
  "(real list \<Rightarrow> real \<Rightarrow> error + real list) \<Rightarrow> real list \<Rightarrow> real list \<Rightarrow> error + real list list"

text \<open>
  The first lines of \<^verbatim>\<open>update\<close>: without \<^verbatim>\<open>dt\<close> the step is the time since the last
  update, which is then recorded.
\<close>

definition step_size :: "real \<Rightarrow> real option \<Rightarrow> 'a plain_network_scheme \<Rightarrow> real \<times> 'a plain_network_scheme" where
  "step_size now dt p =
     (case dt of
        None \<Rightarrow> (now - last_update_time p, p\<lparr>last_update_time := now\<rparr>)
      | Some v \<Rightarrow> (v, p))"

text \<open>\<^verbatim>\<open>np.array([self.state[2*i] for i in range(self.n)])\<close>.\<close>

definition outputs :: "nat \<Rightarrow> real list \<Rightarrow> error + real list" where
  "outputs k st =
     (if 0 < k \<and> length st \<le> 2 * (k - 1) then Inl IndexError
      else Inr (map (\<lambda>i. st ! (2 * i)) [0..<k]))"

definition update ::
  "integrator \<Rightarrow> real \<Rightarrow> real option \<Rightarrow> network \<Rightarrow> (network \<times> real list) result" where
  "update integ now dt s =
     (case step_size now dt s of (dt1, s1) \<Rightarrow>
        (case integ (equations s1) (state s1) [0, dt1] of
           Inl e \<Rightarrow> Inl (e, s1)
         | Inr state_trajectory \<Rightarrow>
             if state_trajectory = [] then Inl (IndexError, s1)
             else
               let s2 = s1\<lparr>state := last state_trajectory\<rparr> in
               (case outputs (n_oscillators s2) (state s2) of
                  Inl e \<Rightarrow> Inl (e, s2)
                | Inr xs \<Rightarrow> Inr (s2, xs))))"

text \<open>\<^verbatim>\<open>update\<close> of \<^verbatim>\<open>cpg_network.py\<close>.\<close>

definition update_plain ::
  "integrator \<Rightarrow> real \<Rightarrow> real option \<Rightarrow> plain_network \<Rightarrow>
     (error \<times> plain_network) + (plain_network \<times> real list)" where
  "update_plain integ now dt p =
     (case step_size now dt p of (dt1, p1) \<Rightarrow>
        (case integ (equations_plain p1) (state p1) [0, dt1] of
           Inl e \<Rightarrow> Inl (e, p1)
         | Inr state_trajectory \<Rightarrow>
             if state_trajectory = [] then Inl (IndexError, p1)
             else
               let p2 = p1\<lparr>state := last state_trajectory\<rparr> in
               (case outputs (n_oscillators p2) (state p2) of
                  Inl e \<Rightarrow> Inl (e, p2)
                | Inr xs \<Rightarrow> Inr (p2, xs))))"

subsection \<open>The single oscillator\<close>

text \<open>
  \<^verbatim>\<open>HopfOscillator\<close> of \<^verbatim>\<open>cpg_single_hopf.py\<close>; its fields carry the prefix \<open>hopf\<close>.
  \<^verbatim>\<open>equations\<close> unpacks the state vector into \<open>x, y\<close>, which fails unless it has two
  entries; \<^verbatim>\<open>update\<close> unpacks the last vector of the trajectory in the same way.
\<close>

record hopf_oscillator =
  hopf_amplitude :: real
  hopf_omega :: real
  hopf_mu :: real
  hopf_x :: real
  hopf_y :: real
  hopf_last_update_time :: real

definition hopf_equations :: "hopf_oscillator \<Rightarrow> real list \<Rightarrow> real \<Rightarrow> error + real list" where
  "hopf_equations h st t =
     (case st of
        [x, y] \<Rightarrow>
          let dx = hopf_mu h * (hopf_amplitude h - (x ^ 2 + y ^ 2)) * x - hopf_omega h * y;
              dy = hopf_mu h * (hopf_amplitude h - (x ^ 2 + y ^ 2)) * y + hopf_omega h * x
          in Inr [dx, dy]
      | _ \<Rightarrow> Inl ValueError)"

definition hopf_update ::
  "integrator \<Rightarrow> real \<Rightarrow> real option \<Rightarrow> hopf_oscillator \<Rightarrow>
     (error \<times> hopf_oscillator) + (hopf_oscillator \<times> real)" where
  "hopf_update integ now dt h =
     (case (case dt of
              None \<Rightarrow> (now - hopf_last_update_time h, h\<lparr>hopf_last_update_time := now\<rparr>)
            | Some v \<Rightarrow> (v, h)) of
        (dt1, h1) \<Rightarrow>
          (case integ (hopf_equations h1) [hopf_x h1, hopf_y h1] [0, dt1] of
             Inl e \<Rightarrow> Inl (e, h1)
           | Inr trajectory \<Rightarrow>
               if trajectory = [] then Inl (IndexError, h1)
               else (case last trajectory of
                       [x, y] \<Rightarrow> Inr (h1\<lparr>hopf_x := x, hopf_y := y\<rparr>, x)
                     | _ \<Rightarrow> Inl (ValueError, h1))))"

subsection \<open>The interface as a transition system\<close>

text \<open>
  The calls a client can make on a constructed network, with arguments of the documented
  types. \<open>perform\<close> runs one call (\<open>now\<close> is the clock reading, \<open>d\<close> the stack depth
  available to it); \<open>reachable integ allowed\<close> holds of every object that a
  constructor call followed by finitely many allowed calls can leave behind, whether
  they returned or raised; \<open>outcome\<close> is the object a call leaves behind.
\<close>

definition outcome :: "network result \<Rightarrow> network" where
  "outcome r = (case r of Inl (e, s) \<Rightarrow> s | Inr s \<Rightarrow> s)"

datatype call =
    Update "real option"
  | SetTripodGait real bool
  | SetWaveGait real bool
  | TurnRight real
  | TurnLeft real
  | StopTurning
  | SetBackward bool
  | SetForward
  | Reset

fun perform :: "integrator \<Rightarrow> real \<Rightarrow> nat \<Rightarrow> call \<Rightarrow> network \<Rightarrow> network result" where
  "perform integ now d (Update dt) s =
     (case update integ now dt s of Inl e \<Rightarrow> Inl e | Inr (s', xs) \<Rightarrow> Inr s')"
| "perform integ now d (SetTripodGait c r) s = set_tripod_gait d c r s"
| "perform integ now d (SetWaveGait c r) s = set_wave_gait d c r s"
| "perform integ now d (TurnRight f) s = Inr (turn_right f s)"
| "perform integ now d (TurnLeft f) s = Inr (turn_left f s)"
| "perform integ now d StopTurning s = Inr (stop_turning s)"
| "perform integ now d (SetBackward b) s = set_backward d b s"
| "perform integ now d SetForward s = set_forward d s"
| "perform integ now d Reset s = Inr (reset now s)"

inductive reachable :: "integrator \<Rightarrow> (call \<Rightarrow> bool) \<Rightarrow> network \<Rightarrow> bool"
  for integ :: integrator and allowed :: "call \<Rightarrow> bool" where
  constructed: "init_net d n amp f m now = Inr s \<Longrightarrow> reachable integ allowed s"
| performed: "reachable integ allowed s \<Longrightarrow> allowed c \<Longrightarrow>
     reachable integ allowed (outcome (perform integ now d c s))"

section \<open>Reference matrices and auxiliary notions\<close>

text \<open>
  The matrices as the specification words them, for comparison with what the loops
  of the program build: \<open>mat_of k f\<close> is the \<open>k \<times> k\<close> matrix with entry \<open>f i j\<close>.
\<close>

definition mat_of :: "nat \<Rightarrow> (nat \<Rightarrow> nat \<Rightarrow> real) \<Rightarrow> real list list" where
  "mat_of k f = map (\<lambda>i. map (\<lambda>j. f i j) [0..<k]) [0..<k]"

definition gait_weights :: "nat \<Rightarrow> real \<Rightarrow> real list list" where
  "gait_weights k c = mat_of k (\<lambda>i j. if i = j then 0 else c)"

definition tripod_phases :: "nat \<Rightarrow> real list list" where
  "tripod_phases k = mat_of k (\<lambda>i j. if i = j then 0 else if i mod 2 = j mod 2 then 0 else pi)"

definition wave_phases :: "nat \<Rightarrow> real list list" where
  "wave_phases k =
     mat_of k (\<lambda>i j. if i = j then 0
                     else (2 * pi / real k) * of_int ((int j - int i) mod int k))"

text \<open>
  The base phase-bias matrix of a stored gait name, and a matrix with a direction
  phase added to every off-diagonal entry modulo \<open>2\<pi>\<close>.
\<close>

definition base_phases :: "string \<Rightarrow> nat \<Rightarrow> real list list" where
  "base_phases g k = (if g = ''tripod'' then tripod_phases k else wave_phases k)"

definition shifted :: "real \<Rightarrow> real list list \<Rightarrow> real list list" where
  "shifted dp m =
     mat_of (length m) (\<lambda>i j. if i = j then m ! i ! j else py_mod (m ! i ! j + dp) (2 * pi))"

text \<open>A \<open>k \<times> k\<close> matrix; one entry of a matrix rewritten off the diagonal.\<close>

definition is_mat :: "nat \<Rightarrow> real list list \<Rightarrow> bool" where
  "is_mat k m = (length m = k \<and> list_all (\<lambda>row. length row = k) m)"

definition cellm ::
  "(nat \<Rightarrow> nat \<Rightarrow> real \<Rightarrow> real) \<Rightarrow> nat \<Rightarrow> nat \<Rightarrow> real list list \<Rightarrow> real list list" where
  "cellm u i j m = (if i \<noteq> j then set2 m i j (u i j (get2 m i j)) else m)"

definition without_matrices :: "network \<Rightarrow> network" where
  "without_matrices s = s\<lparr>coupling_weights := [], phase_biases := []\<rparr>"

definition without_phases :: "network \<Rightarrow> network" where
  "without_phases s = s\<lparr>phase_biases := []\<rparr>"

definition without_arrays :: "network \<Rightarrow> network" where
  "without_arrays s = s\<lparr>amplitudes := [], frequencies := []\<rparr>"

text \<open>
  The plain network \<open>p\<close> and the extended network \<open>s\<close> have the same parameters and
  matrices, and every per-oscillator amplitude and frequency of \<open>s\<close> is at its base
  value. \<open>same_tick\<close> relates the results of one tick of each.
\<close>

definition matches_plain :: "plain_network \<Rightarrow> network \<Rightarrow> bool" where
  "matches_plain p s =
     (n_oscillators p = n_oscillators s \<and> mu p = mu s \<and> amplitude p = amplitude s \<and>
      omega p = 2 * pi * base_frequency s \<and>
      coupling_weights p = coupling_weights s \<and> phase_biases p = phase_biases s \<and>
      list_all (\<lambda>i. frequencies s ! i = base_frequency s \<and> amplitudes s ! i = amplitude s)
        [0..<n_oscillators s])"

definition same_tick ::
  "(error \<times> plain_network) + (plain_network \<times> real list) \<Rightarrow> (network \<times> real list) result \<Rightarrow> bool" where
  "same_tick a b =
     (case (a, b) of
        (Inr (p', ys), Inr (s', xs)) \<Rightarrow>
           ys = xs \<and> state p' = state s' \<and> last_update_time p' = last_update_time s' \<and>
           matches_plain p' s'
      | (Inl (e', p'), Inl (e, s')) \<Rightarrow>
           e' = e \<and> state p' = state s' \<and> last_update_time p' = last_update_time s' \<and>
           matches_plain p' s'
      | _ \<Rightarrow> False)"

text \<open>
  The contract of the integrator for a step of length zero: the trajectory it returns
  for the time points \<open>[0, 0]\<close> ends in the initial vector.
\<close>

definition zero_step_ok :: "integrator \<Rightarrow> (real list \<Rightarrow> real \<Rightarrow> error + real list) \<Rightarrow> real list \<Rightarrow> bool" where
  "zero_step_ok integ f y =
     (case integ f y [0, 0] of
        Inl e \<Rightarrow> False
      | Inr trajectory \<Rightarrow> trajectory \<noteq> [] \<and> last trajectory = y)"

text \<open>
  A one-step explicit Euler scheme, used as a concrete integrator in the examples, and
  the network of two oscillators that \<^verbatim>\<open>CoupledOscillatorNetwork(2)\<close> constructs, with
  its plain counterpart.
\<close>

definition euler_odeint :: integrator where
  "euler_odeint f y0 ts =
     (case ts of
        [] \<Rightarrow> Inr []
      | t0 # rest \<Rightarrow>
          (case f y0 t0 of
             Inl e \<Rightarrow> Inl e
           | Inr dy \<Rightarrow> Inr (y0 # map (\<lambda>t. map2 (\<lambda>y d. y + (t - t0) * d) y0 dy) rest)))"

definition sample_plain :: plain_network where
  "sample_plain =
     \<lparr>n_oscillators = 2, amplitude = 1, omega = 2 * pi, mu = 1, state = [1 / 10, 0, 1 / 10, 0],
      coupling_weights = [[0, 1], [1, 0]], phase_biases = [[0, pi], [pi, 0]],
      last_update_time = 0\<rparr>"

definition sample_net :: network where
  "sample_net =
     \<lparr>n_oscillators = 2, amplitude = 1, omega = 2 * pi, mu = 1, state = [1 / 10, 0, 1 / 10, 0],
      coupling_weights = [[0, 1], [1, 0]], phase_biases = [[0, pi], [pi, 0]],
      last_update_time = 0,
      base_frequency = 1, frequencies = [1, 1], amplitudes = [1, 1],
      current_gait = ''tripod'', direction_phase = 0,
      turning = False, turning_direction = None, turning_factor = 0\<rparr>"


definition matrices_ok :: "network \<Rightarrow> bool" where
  "matrices_ok s =
     (is_mat (n_oscillators s) (coupling_weights s) \<and>
      is_mat (n_oscillators s) (phase_biases s) \<and>
      (\<forall>i<n_oscillators s. \<forall>j<n_oscillators s.
         (i = j \<longrightarrow> get2 (coupling_weights s) i j = 0 \<and> get2 (phase_biases s) i j = 0) \<and>
         0 \<le> get2 (phase_biases s) i j \<and> get2 (phase_biases s) i j < 2 * pi))"

definition weights_nonneg :: "network \<Rightarrow> bool" where
  "weights_nonneg s =
     (\<forall>i<n_oscillators s. \<forall>j<n_oscillators s. 0 \<le> get2 (coupling_weights s) i j)"

definition arrays_ok :: "network \<Rightarrow> bool" where
  "arrays_ok s =
     (length (amplitudes s) = n_oscillators s \<and> length (frequencies s) = n_oscillators s)"

definition sound :: "network \<Rightarrow> bool" where
  "sound s = (matrices_ok s \<and> arrays_ok s)"


section \<open>The loops in closed form\<close>

lemma is_mat_nth: "is_mat k m \<Longrightarrow> i < k \<Longrightarrow> length (m ! i) = k"
  by (simp add: is_mat_def list_all_length)

lemma is_mat_set2: "is_mat k m \<Longrightarrow> is_mat k (set2 m i j v)"
  by (cases "i < length m") (auto simp: is_mat_def set2_def list_all_length nth_list_update)

lemma set2_nth:
  "is_mat k m \<Longrightarrow> i < k \<Longrightarrow> j < k \<Longrightarrow> a < k \<Longrightarrow> b < k \<Longrightarrow>
   set2 m i j v ! a ! b = (if a = i \<and> b = j then v else m ! a ! b)"
  by (auto simp: is_mat_def set2_def list_all_length nth_list_update)

lemma is_mat_cellm: "is_mat k m \<Longrightarrow> is_mat k (cellm u i j m)"
  by (simp add: cellm_def is_mat_set2)

lemma cellm_nth:
  "is_mat k m \<Longrightarrow> i < k \<Longrightarrow> j < k \<Longrightarrow> a < k \<Longrightarrow> b < k \<Longrightarrow>
   cellm u i j m ! a ! b =
     (if a = i \<and> b = j \<and> i \<noteq> j then u i j (m ! a ! b) else m ! a ! b)"
  by (simp add: cellm_def set2_nth get2_def)

lemma is_mat_mat_of: "is_mat k (mat_of k f)"
  by (simp add: is_mat_def mat_of_def list_all_length)

lemma mat_of_nth: "i < k \<Longrightarrow> j < k \<Longrightarrow> mat_of k f ! i ! j = f i j"
  by (simp add: mat_of_def)

lemma is_mat_zeros2: "is_mat k (zeros2 k k)"
  by (simp add: is_mat_def zeros2_def list_all_length)

lemma zeros2_nth: "i < k \<Longrightarrow> j < k \<Longrightarrow> zeros2 k k ! i ! j = 0"
  by (simp add: zeros2_def)

lemma mat_eqI:
  assumes "is_mat k m" and "\<And>a b. a < k \<Longrightarrow> b < k \<Longrightarrow> m ! a ! b = f a b"
  shows "m = mat_of k f"
  using assms
  by (auto simp: mat_of_def is_mat_def list_all_length intro!: nth_equalityI)

text \<open>The inner loop has rewritten row \<open>i\<close> up to column \<open>c\<close>.\<close>

lemma inner_loop:
  assumes "is_mat k m" and "i < k" and "c \<le> k"
  shows "is_mat k (fold (cellm u i) [0..<c] m) \<and>
    (\<forall>a<k. \<forall>b<k. fold (cellm u i) [0..<c] m ! a ! b =
       (if a = i \<and> b < c \<and> i \<noteq> b then u i b (m ! a ! b) else m ! a ! b))"
  using assms(3)
proof (induction c)
  case 0
  then show ?case using assms by simp
next
  case (Suc c)
  then have IH: "is_mat k (fold (cellm u i) [0..<c] m)"
    "\<And>a b. a < k \<Longrightarrow> b < k \<Longrightarrow> fold (cellm u i) [0..<c] m ! a ! b =
       (if a = i \<and> b < c \<and> i \<noteq> b then u i b (m ! a ! b) else m ! a ! b)"
    by auto
  from Suc.prems have ck: "c < k" by simp
  show ?case
    using IH(1) assms(2) ck
    by (auto simp: is_mat_cellm cellm_nth IH(2) less_Suc_eq)
qed

text \<open>The outer loop has rewritten the rows below \<open>r\<close>.\<close>

lemma outer_loop:
  assumes "is_mat k m" and "r \<le> k"
  shows "is_mat k (fold (\<lambda>i. fold (cellm u i) [0..<k]) [0..<r] m) \<and>
    (\<forall>a<k. \<forall>b<k. fold (\<lambda>i. fold (cellm u i) [0..<k]) [0..<r] m ! a ! b =
       (if a < r \<and> a \<noteq> b then u a b (m ! a ! b) else m ! a ! b))"
  using assms(2)
proof (induction r)
  case 0
  then show ?case using assms by simp
next
  case (Suc r)
  let ?m = "fold (\<lambda>i. fold (cellm u i) [0..<k]) [0..<r] m"
  from Suc have IH: "is_mat k ?m"
    "\<And>a b. a < k \<Longrightarrow> b < k \<Longrightarrow> ?m ! a ! b =
       (if a < r \<and> a \<noteq> b then u a b (m ! a ! b) else m ! a ! b)"
    by auto
  from Suc.prems have rk: "r < k" by simp
  from inner_loop[OF IH(1) rk order_refl, of u]
  show ?case
    by (auto simp: IH(2) less_Suc_eq)
qed

lemma pair_loop:
  assumes "is_mat k m"
  shows "fold (\<lambda>i. fold (cellm u i) [0..<k]) [0..<k] m =
     mat_of k (\<lambda>a b. if a = b then m ! a ! b else u a b (m ! a ! b))"
  using outer_loop[OF assms order_refl, of u]
  by (intro mat_eqI) auto

text \<open>A loop seen through a projection \<open>h\<close> of the object, under a loop invariant.\<close>

lemma fold_proj:
  assumes "\<And>x s. I s \<Longrightarrow> I (f x s) \<and> h (f x s) = g x (h s)" and "I s"
  shows "I (fold f xs s) \<and> h (fold f xs s) = fold g xs (h s)"
  using assms(2)
proof (induction xs arbitrary: s)
  case Nil
  then show ?case by simp
next
  case (Cons x xs)
  from assms(1)[OF Cons.prems] have "I (f x s)" "h (f x s) = g x (h s)" by auto
  with Cons.IH[of "f x s"] show ?case by simp
qed

lemma for_pairs_proj:
  assumes "\<And>i j s. I s \<Longrightarrow> I (body i j s) \<and> h (body i j s) = g i j (h s)" and "I s"
  shows "I (for_pairs body s) \<and>
     h (for_pairs body s) =
       fold (\<lambda>i. fold (g i) [0..<n_oscillators s]) [0..<n_oscillators s] (h s)"
proof -
  have inner: "\<And>i t. I t \<Longrightarrow> I (fold (body i) [0..<n_oscillators s] t) \<and>
      h (fold (body i) [0..<n_oscillators s] t) = fold (g i) [0..<n_oscillators s] (h t)"
    by (rule fold_proj[where I = I]) (use assms(1) in auto)
  show ?thesis
    unfolding for_pairs_def
    by (rule fold_proj[where I = I and f = "\<lambda>i. fold (body i) [0..<n_oscillators s]"])
       (use inner assms(2) in auto)
qed

lemma rebuild_matrices:
  "without_matrices s' = without_matrices s \<Longrightarrow>
   s' = s\<lparr>coupling_weights := coupling_weights s', phase_biases := phase_biases s'\<rparr>"
  by (cases s, cases s') (simp add: without_matrices_def)

lemma rebuild_phases:
  "without_phases s' = without_phases s \<Longrightarrow> s' = s\<lparr>phase_biases := phase_biases s'\<rparr>"
  by (cases s, cases s') (simp add: without_phases_def)

lemma without_matrices_fields:
  "without_matrices t = without_matrices s \<Longrightarrow> n_oscillators t = n_oscillators s"
  "without_matrices t = without_matrices s \<Longrightarrow> direction_phase t = direction_phase s"
  by (cases s, cases t, simp add: without_matrices_def)+

lemma without_phases_fields:
  "without_phases t = without_phases s \<Longrightarrow> n_oscillators t = n_oscillators s"
  "without_phases t = without_phases s \<Longrightarrow> direction_phase t = direction_phase s"
  by (cases s, cases t, simp add: without_phases_def)+

lemma for_pairs_cells:
  assumes frame: "\<And>i j t. without_matrices (body i j t) = without_matrices t"
    and cw: "\<And>i j t. without_matrices t = without_matrices s \<Longrightarrow>
               coupling_weights (body i j t) = cellm u i j (coupling_weights t)"
    and pb: "\<And>i j t. without_matrices t = without_matrices s \<Longrightarrow>
               phase_biases (body i j t) = cellm v i j (phase_biases t)"
    and mats: "is_mat (n_oscillators s) (coupling_weights s)"
              "is_mat (n_oscillators s) (phase_biases s)"
  shows "for_pairs body s =
    s\<lparr>coupling_weights := mat_of (n_oscillators s)
         (\<lambda>i j. if i = j then coupling_weights s ! i ! j else u i j (coupling_weights s ! i ! j)),
      phase_biases := mat_of (n_oscillators s)
         (\<lambda>i j. if i = j then phase_biases s ! i ! j else v i j (phase_biases s ! i ! j))\<rparr>"
proof -
  let ?I = "\<lambda>t. without_matrices t = without_matrices s"
  have 1: "?I (for_pairs body s) \<and> coupling_weights (for_pairs body s) =
      fold (\<lambda>i. fold (cellm u i) [0..<n_oscillators s]) [0..<n_oscillators s] (coupling_weights s)"
    by (rule for_pairs_proj[where I = ?I]) (simp_all add: frame cw)
  have 2: "?I (for_pairs body s) \<and> phase_biases (for_pairs body s) =
      fold (\<lambda>i. fold (cellm v i) [0..<n_oscillators s]) [0..<n_oscillators s] (phase_biases s)"
    by (rule for_pairs_proj[where I = ?I]) (simp_all add: frame pb)
  from 1 have "for_pairs body s =
     s\<lparr>coupling_weights := coupling_weights (for_pairs body s),
       phase_biases := phase_biases (for_pairs body s)\<rparr>"
    by (intro rebuild_matrices) simp
  then show ?thesis
    using 1 2 by (simp add: pair_loop[OF mats(1)] pair_loop[OF mats(2)])
qed

lemma tripod_cell_proj:
  "without_matrices (tripod_cell c i j s) = without_matrices s"
  "coupling_weights (tripod_cell c i j s) = cellm (\<lambda>_ _ _. c) i j (coupling_weights s)"
  "phase_biases (tripod_cell c i j s) =
     cellm (\<lambda>i j _. if i mod 2 = j mod 2 then 0 else pi) i j (phase_biases s)"
  by (simp_all add: tripod_cell_def cellm_def without_matrices_def Let_def)

lemma wave_cell_proj:
  "without_matrices (wave_cell c i j s) = without_matrices s"
  "coupling_weights (wave_cell c i j s) = cellm (\<lambda>_ _ _. c) i j (coupling_weights s)"
  "phase_biases (wave_cell c i j s) =
     cellm (\<lambda>i j _. (2 * pi / real (n_oscillators s)) * of_int ((int j - int i) mod int (n_oscillators s)))
       i j (phase_biases s)"
  by (simp_all add: wave_cell_def cellm_def without_matrices_def Let_def)

lemma set_tripod_gait_nl_eq:
  "set_tripod_gait_nl c r s =
     s\<lparr>current_gait := ''tripod'',
       direction_phase := (if r then 0 else direction_phase s),
       coupling_weights := gait_weights (n_oscillators s) c,
       phase_biases := tripod_phases (n_oscillators s)\<rparr>"
proof -
  define s3 where "s3 = s\<lparr>current_gait := ''tripod'',
       direction_phase := (if r then 0 else direction_phase s),
       coupling_weights := zeros2 (n_oscillators s) (n_oscillators s),
       phase_biases := zeros2 (n_oscillators s) (n_oscillators s)\<rparr>"
  have n3: "n_oscillators s3 = n_oscillators s" by (simp add: s3_def)
  have "set_tripod_gait_nl c r s = for_pairs (tripod_cell c) s3"
    by (simp add: set_tripod_gait_nl_def s3_def Let_def)
  also have "\<dots> = s3\<lparr>coupling_weights := mat_of (n_oscillators s3)
         (\<lambda>i j. if i = j then coupling_weights s3 ! i ! j else c),
      phase_biases := mat_of (n_oscillators s3)
         (\<lambda>i j. if i = j then phase_biases s3 ! i ! j else (if i mod 2 = j mod 2 then 0 else pi))\<rparr>"
    by (rule for_pairs_cells) (simp_all add: tripod_cell_proj s3_def is_mat_zeros2)
  also have "\<dots> = s\<lparr>current_gait := ''tripod'',
       direction_phase := (if r then 0 else direction_phase s),
       coupling_weights := gait_weights (n_oscillators s) c,
       phase_biases := tripod_phases (n_oscillators s)\<rparr>"
  proof -
    have a: "mat_of (n_oscillators s3) (\<lambda>i j. if i = j then coupling_weights s3 ! i ! j else c)
        = gait_weights (n_oscillators s) c"
      unfolding gait_weights_def n3
      by (rule mat_eqI[OF is_mat_mat_of]) (simp add: mat_of_nth s3_def zeros2_nth)
    have b: "mat_of (n_oscillators s3)
         (\<lambda>i j. if i = j then phase_biases s3 ! i ! j else (if i mod 2 = j mod 2 then 0 else pi))
        = tripod_phases (n_oscillators s)"
      unfolding tripod_phases_def n3
      by (rule mat_eqI[OF is_mat_mat_of]) (simp add: mat_of_nth s3_def zeros2_nth)
    show ?thesis unfolding a b by (simp add: s3_def)
  qed
  finally show ?thesis .
qed


lemma set_wave_gait_nl_eq:
  "set_wave_gait_nl c r s =
     s\<lparr>current_gait := ''wave'',
       direction_phase := (if r then 0 else direction_phase s),
       coupling_weights := gait_weights (n_oscillators s) c,
       phase_biases := wave_phases (n_oscillators s)\<rparr>"
proof -
  define s3 where "s3 = s\<lparr>current_gait := ''wave'',
       direction_phase := (if r then 0 else direction_phase s),
       coupling_weights := zeros2 (n_oscillators s) (n_oscillators s),
       phase_biases := zeros2 (n_oscillators s) (n_oscillators s)\<rparr>"
  define k where "k = n_oscillators s"
  have n3: "n_oscillators s3 = k" by (simp add: s3_def k_def)
  have "set_wave_gait_nl c r s = for_pairs (wave_cell c) s3"
    by (simp add: set_wave_gait_nl_def s3_def Let_def)
  also have "\<dots> = s3\<lparr>coupling_weights := mat_of (n_oscillators s3)
         (\<lambda>i j. if i = j then coupling_weights s3 ! i ! j else c),
      phase_biases := mat_of (n_oscillators s3)
         (\<lambda>i j. if i = j then phase_biases s3 ! i ! j
                 else (2 * pi / real k) * of_int ((int j - int i) mod int k))\<rparr>"
  proof (rule for_pairs_cells)
    fix i j t
    assume "without_matrices t = without_matrices s3"
    then have "n_oscillators t = k"
      using without_matrices_fields(1)[of t s3] n3 by simp
    then show "phase_biases (wave_cell c i j t) =
       cellm (\<lambda>i j _. (2 * pi / real k) * of_int ((int j - int i) mod int k)) i j (phase_biases t)"
      by (simp add: wave_cell_proj)
  qed (simp_all add: wave_cell_proj s3_def is_mat_zeros2)
  also have "\<dots> = s\<lparr>current_gait := ''wave'',
       direction_phase := (if r then 0 else direction_phase s),
       coupling_weights := gait_weights (n_oscillators s) c,
       phase_biases := wave_phases (n_oscillators s)\<rparr>"
  proof -
    have a: "mat_of (n_oscillators s3) (\<lambda>i j. if i = j then coupling_weights s3 ! i ! j else c)
        = gait_weights k c"
      unfolding gait_weights_def n3
      by (rule mat_eqI[OF is_mat_mat_of]) (simp add: mat_of_nth s3_def zeros2_nth k_def)
    have b: "mat_of (n_oscillators s3)
         (\<lambda>i j. if i = j then phase_biases s3 ! i ! j
                 else (2 * pi / real k) * of_int ((int j - int i) mod int k))
        = wave_phases k"
      unfolding wave_phases_def n3
      by (rule mat_eqI[OF is_mat_mat_of]) (simp add: mat_of_nth s3_def zeros2_nth k_def)
    show ?thesis unfolding a b by (simp add: s3_def k_def)
  qed
  finally show ?thesis .
qed

lemma shift_cell_proj:
  "without_phases (shift_cell i j s) = without_phases s"
  "phase_biases (shift_cell i j s) =
     cellm (\<lambda>_ _ x. py_mod (x + direction_phase s) (2 * pi)) i j (phase_biases s)"
  by (simp_all add: shift_cell_def cellm_def without_phases_def)

lemma for_pairs_shift:
  assumes "is_mat (n_oscillators s) (phase_biases s)"
  shows "for_pairs shift_cell s =
           s\<lparr>phase_biases := shifted (direction_phase s) (phase_biases s)\<rparr>"
proof -
  let ?I = "\<lambda>t. without_phases t = without_phases s"
  let ?u = "\<lambda>(_::nat) (_::nat) x. py_mod (x + direction_phase s) (2 * pi)"
  have step: "?I (shift_cell i j t) \<and>
      phase_biases (shift_cell i j t) = cellm ?u i j (phase_biases t)" if "?I t" for i j t
  proof -
    from that have "direction_phase t = direction_phase s"
      by (rule without_phases_fields(2))
    with that show ?thesis by (simp add: shift_cell_proj)
  qed
  have 1: "?I (for_pairs shift_cell s) \<and> phase_biases (for_pairs shift_cell s) =
      fold (\<lambda>i. fold (cellm ?u i) [0..<n_oscillators s]) [0..<n_oscillators s] (phase_biases s)"
    by (rule for_pairs_proj[where I = ?I]) (use step in simp_all)
  have len: "length (phase_biases s) = n_oscillators s"
    using assms by (simp add: is_mat_def)
  from 1 have "for_pairs shift_cell s = s\<lparr>phase_biases := phase_biases (for_pairs shift_cell s)\<rparr>"
    by (intro rebuild_phases) simp
  then show ?thesis
    using 1 by (simp add: pair_loop[OF assms] shifted_def len)
qed

lemma apply_direction_eq:
  assumes "is_mat (n_oscillators s) (phase_biases s)"
  shows "apply_direction s =
     (if direction_phase s \<noteq> 0
      then s\<lparr>phase_biases := shifted (direction_phase s) (phase_biases s)\<rparr> else s)"
  by (simp add: apply_direction_def for_pairs_shift[OF assms])

section \<open>Gaits and direction\<close>

text \<open>
  With the direction forward, a gait setter of \<^verbatim>\<open>cpg_loconetwork.py\<close> returns after
  its own frame; the object it returns is the one of \<^verbatim>\<open>cpg_network_loco.py\<close>.
\<close>

lemma gait_setters_return:
  assumes "r \<or> direction_phase s = 0"
  shows "set_tripod_gait (Suc d) c r s =
           Inr (s\<lparr>current_gait := ''tripod'', direction_phase := 0,
                  coupling_weights := gait_weights (n_oscillators s) c,
                  phase_biases := tripod_phases (n_oscillators s)\<rparr>)"
    and "set_wave_gait (Suc d) c r s =
           Inr (s\<lparr>current_gait := ''wave'', direction_phase := 0,
                  coupling_weights := gait_weights (n_oscillators s) c,
                  phase_biases := wave_phases (n_oscillators s)\<rparr>)"
  using assms by (auto simp: set_tripod_gait_nl_eq set_wave_gait_nl_eq Let_def)

text \<open>
  With a direction phase other than zero the gait setters and
  \<^verbatim>\<open>_update_phase_relationships\<close> of \<^verbatim>\<open>cpg_loconetwork.py\<close> call each other without
  end: whatever the stack depth, the call raises \<^verbatim>\<open>RecursionError\<close>.
\<close>

lemma recursion_never_returns:
  "direction_phase s \<noteq> 0 \<Longrightarrow>
     (\<exists>s'. set_tripod_gait d c False s = Inl (RecursionError, s')) \<and>
     (\<exists>s'. set_wave_gait d c False s = Inl (RecursionError, s')) \<and>
     (current_gait s = ''tripod'' \<or> current_gait s = ''wave'' \<longrightarrow>
        (\<exists>s'. update_phase_relationships d s = Inl (RecursionError, s')))"
proof (induction d arbitrary: s c)
  case 0
  then show ?case by simp
next
  case (Suc d)
  let ?t = "set_tripod_gait_nl c False s" and ?w = "set_wave_gait_nl c False s"
  have t: "direction_phase ?t \<noteq> 0" "current_gait ?t = ''tripod''"
    and w: "direction_phase ?w \<noteq> 0" "current_gait ?w = ''wave''"
    using Suc.prems by (simp_all add: set_tripod_gait_nl_eq set_wave_gait_nl_eq)
  from Suc.IH[OF t(1), of c] t(2)
  have 1: "\<exists>s'. set_tripod_gait (Suc d) c False s = Inl (RecursionError, s')"
    using t(1) by (simp add: Let_def)
  from Suc.IH[OF w(1), of c] w(2)
  have 2: "\<exists>s'. set_wave_gait (Suc d) c False s = Inl (RecursionError, s')"
    using w(1) by (simp add: Let_def)
  from Suc.IH[OF Suc.prems, of 1]
  have 3: "current_gait s = ''tripod'' \<or> current_gait s = ''wave'' \<longrightarrow>
        (\<exists>s'. update_phase_relationships (Suc d) s = Inl (RecursionError, s'))"
    by auto
  from 1 2 3 show ?case by blast
qed

lemma set_backward_false_returns:
  assumes "current_gait s = ''tripod'' \<or> current_gait s = ''wave''"
  shows "set_backward (Suc (Suc (Suc d))) False s =
     Inr (s\<lparr>direction_phase := 0,
            coupling_weights := gait_weights (n_oscillators s) 1,
            phase_biases := base_phases (current_gait s) (n_oscillators s)\<rparr>)"
  using assms
  by (auto simp: set_tripod_gait_nl_eq set_wave_gait_nl_eq Let_def apply_direction_def
      base_phases_def)


text \<open>
  \<^verbatim>\<open>cpg_network_loco.py\<close>, where the gait setters do not call back: \<^verbatim>\<open>set_backward\<close>
  returns the base matrix of the current gait, shifted by \<open>\<pi>\<close> when backward; the
  coupling weights are rebuilt with strength \<open>1.0\<close>. A gait setter called with
  \<^verbatim>\<open>reset_direction=False\<close> keeps the direction phase and stores the unshifted matrix.
\<close>

lemma base_phases_is_mat: "is_mat k (base_phases g k)"
  by (simp add: base_phases_def tripod_phases_def wave_phases_def is_mat_mat_of)

lemma update_phase_relationships_nl_eq:
  assumes "current_gait s = ''tripod'' \<or> current_gait s = ''wave''"
  shows "update_phase_relationships_nl s =
     s\<lparr>coupling_weights := gait_weights (n_oscillators s) 1,
       phase_biases := (if direction_phase s \<noteq> 0
                        then shifted (direction_phase s) (base_phases (current_gait s) (n_oscillators s))
                        else base_phases (current_gait s) (n_oscillators s))\<rparr>"
proof -
  define s1 where "s1 = s\<lparr>coupling_weights := gait_weights (n_oscillators s) 1,
       phase_biases := base_phases (current_gait s) (n_oscillators s)\<rparr>"
  have 1: "(if current_gait s = ''tripod'' then set_tripod_gait_nl 1 False s
                else if current_gait s = ''wave'' then set_wave_gait_nl 1 False s
                else s) = s1"
    using assms by (auto simp: s1_def set_tripod_gait_nl_eq set_wave_gait_nl_eq base_phases_def)
  have 2: "is_mat (n_oscillators s1) (phase_biases s1)"
    by (simp add: s1_def base_phases_is_mat)
  show ?thesis
    unfolding update_phase_relationships_nl_def 1 Let_def apply_direction_eq[OF 2]
    by (simp add: s1_def)
qed

lemma set_backward_nl_eq:
  assumes "current_gait s = ''tripod'' \<or> current_gait s = ''wave''"
  shows "set_backward_nl backward s =
     s\<lparr>direction_phase := (if backward then pi else 0),
       coupling_weights := gait_weights (n_oscillators s) 1,
       phase_biases := (if backward
                        then shifted pi (base_phases (current_gait s) (n_oscillators s))
                        else base_phases (current_gait s) (n_oscillators s))\<rparr>"
  using assms by (simp add: set_backward_nl_def update_phase_relationships_nl_eq)

lemma set_backward_nl_round_trip:
  assumes "current_gait s = ''tripod'' \<or> current_gait s = ''wave''"
  shows "phase_biases (set_backward_nl False (set_backward_nl True s)) =
           base_phases (current_gait s) (n_oscillators s)"
  using assms by (simp add: set_backward_nl_eq)

lemma gait_switch_nl_drops_direction:
  "phase_biases (set_tripod_gait_nl c False s) = tripod_phases (n_oscillators s)"
  "phase_biases (set_wave_gait_nl c False s) = wave_phases (n_oscillators s)"
  "direction_phase (set_tripod_gait_nl c False s) = direction_phase s"
  "direction_phase (set_wave_gait_nl c False s) = direction_phase s"
  by (simp_all add: set_tripod_gait_nl_eq set_wave_gait_nl_eq)

text \<open>
  Claim C3. For every number of oscillators \<open>n \<ge> 1\<close> (there are indices \<open>i, j < n\<close>)
  and every coupling strength, a gait applied with forward direction (the direction
  is reset, or is already forward) returns, and then the coupling weight at \<open>(i, j)\<close>
  is the coupling strength off the diagonal and \<open>0\<close> on it; the phase bias is \<open>0\<close> on the
  diagonal and, off it, for the tripod gait \<open>0\<close> when \<open>i\<close> and \<open>j\<close> have the same
  parity and \<open>\<pi>\<close> otherwise, for the wave gait \<open>(2\<pi>/n) \<sqdot> ((j - i) mod n)\<close>.
\<close>

theorem gait_forward_matrices:
  assumes "reset_direction \<or> direction_phase s = 0"
    and "i < n_oscillators s" and "j < n_oscillators s"
  shows "(\<exists>s'. set_tripod_gait (Suc d) c reset_direction s = Inr s' \<and>
            get2 (coupling_weights s') i j = (if i = j then 0 else c) \<and>
            get2 (phase_biases s') i j =
              (if i = j then 0 else if i mod 2 = j mod 2 then 0 else pi)) \<and>
         (\<exists>s'. set_wave_gait (Suc d) c reset_direction s = Inr s' \<and>
            get2 (coupling_weights s') i j = (if i = j then 0 else c) \<and>
            get2 (phase_biases s') i j =
              (if i = j then 0
               else (2 * pi / real (n_oscillators s)) *
                    of_int ((int j - int i) mod int (n_oscillators s))))"
  unfolding gait_setters_return[OF assms(1)]
  using assms(2,3)
  by (simp add: get2_def gait_weights_def tripod_phases_def wave_phases_def mat_of_nth)

theorem gait_forward_matrices_witness:
  "(\<exists>s'. set_tripod_gait 1 2 True (blank_net 6 1 1 1 0) = Inr s' \<and>
        get2 (coupling_weights s') 0 3 = 2 \<and> get2 (phase_biases s') 0 3 = pi) \<and>
   (\<exists>s'. set_wave_gait 1 2 True (blank_net 6 1 1 1 0) = Inr s' \<and>
        get2 (coupling_weights s') 0 3 = 2 \<and> get2 (phase_biases s') 0 3 = pi)"
  using gait_forward_matrices[of True "blank_net 6 1 1 1 0" 0 3 0 2]
  by (simp add: blank_net_def)

text \<open>
  Claim C1 says that \<^verbatim>\<open>set_backward\<close> terminates for each value of the flag. In
  \<^verbatim>\<open>cpg_loconetwork.py\<close> the call \<^verbatim>\<open>set_backward(True)\<close> on a network whose gait is
  tripod or wave never returns: at every stack depth \<open>d\<close> it ends in
  \<^verbatim>\<open>RecursionError\<close>.
\<close>

theorem set_backward_true_raises:
  assumes "current_gait s = ''tripod'' \<or> current_gait s = ''wave''"
  shows "\<exists>s'. set_backward d True s = Inl (RecursionError, s')"
proof (cases d)
  case 0
  then show ?thesis by simp
next
  case (Suc d')
  have "direction_phase (s\<lparr>direction_phase := pi\<rparr>) \<noteq> 0" by simp
  from recursion_never_returns[OF this, of d' 1] assms
  show ?thesis using Suc by simp
qed

theorem set_backward_true_raises_witness:
  "\<exists>s'. set_backward 1000 True (blank_net 6 1 1 1 0) = Inl (RecursionError, s')"
  using set_backward_true_raises[of "blank_net 6 1 1 1 0" 1000]
  by (simp add: blank_net_def)

text \<open>
  Claim C2 says that a gait applied with \<^verbatim>\<open>reset_direction=False\<close> while the direction
  phase is \<open>\<pi>\<close> terminates with the shifted matrix of the new gait. In
  \<^verbatim>\<open>cpg_loconetwork.py\<close> neither gait setter returns then: at every stack depth \<open>d\<close>
  the call ends in \<^verbatim>\<open>RecursionError\<close>. In \<^verbatim>\<open>cpg_network_loco.py\<close> the setters return,
  with the direction phase still \<open>\<pi>\<close> and the matrix of the new gait unshifted.
\<close>

theorem gait_switch_loses_direction:
  assumes "direction_phase s = pi"
  shows "(\<exists>s'. set_tripod_gait d c False s = Inl (RecursionError, s')) \<and>
         (\<exists>s'. set_wave_gait d c False s = Inl (RecursionError, s')) \<and>
         direction_phase (set_tripod_gait_nl c False s) = pi \<and>
         phase_biases (set_tripod_gait_nl c False s) = tripod_phases (n_oscillators s) \<and>
         direction_phase (set_wave_gait_nl c False s) = pi \<and>
         phase_biases (set_wave_gait_nl c False s) = wave_phases (n_oscillators s)"
proof -
  from assms have "direction_phase s \<noteq> 0" by simp
  from recursion_never_returns[OF this, of d c] assms show ?thesis
    by (simp add: gait_switch_nl_drops_direction)
qed

theorem gait_switch_loses_direction_witness:
  "(\<exists>s'. set_wave_gait 1000 1 False (set_backward_nl True (blank_net 6 1 1 1 0))
            = Inl (RecursionError, s')) \<and>
   direction_phase (set_wave_gait_nl 1 False (set_backward_nl True (blank_net 6 1 1 1 0))) = pi \<and>
   get2 (phase_biases (set_wave_gait_nl 1 False (set_backward_nl True (blank_net 6 1 1 1 0)))) 0 3
     = pi \<and>
   py_mod (pi + pi) (2 * pi) = 0"
proof -
  have g: "current_gait (blank_net 6 1 1 1 0) = ''tripod''" by (simp add: blank_net_def)
  have d: "direction_phase (set_backward_nl True (blank_net 6 1 1 1 0)) = pi"
    by (simp add: set_backward_nl_eq g)
  have n: "n_oscillators (set_backward_nl True (blank_net 6 1 1 1 0)) = 6"
    by (simp add: set_backward_nl_eq g) (simp add: blank_net_def)
  from gait_switch_loses_direction[OF d, of 1000 1] show ?thesis
    by (simp add: n wave_phases_def mat_of_nth get2_def py_mod_def)
qed

section \<open>Turning and reset\<close>

lemma rebuild_arrays:
  "without_arrays s' = without_arrays s \<Longrightarrow>
   s' = s\<lparr>amplitudes := amplitudes s', frequencies := frequencies s'\<rparr>"
  by (cases s, cases s') (simp add: without_arrays_def)

lemma without_arrays_fields:
  "without_arrays t = without_arrays s \<Longrightarrow> amplitude t = amplitude s"
  "without_arrays t = without_arrays s \<Longrightarrow> base_frequency t = base_frequency s"
  by (cases s, cases t, simp add: without_arrays_def)+

lemma fill_loop_nth:
  assumes "c \<le> length xs"
  shows "length (fold (\<lambda>i ys. ys[i := f i]) [0..<c] xs) = length xs \<and>
     (\<forall>a<length xs. fold (\<lambda>i ys. ys[i := f i]) [0..<c] xs ! a = (if a < c then f a else xs ! a))"
  using assms
proof (induction c)
  case 0
  then show ?case by simp
next
  case (Suc c)
  then show ?case by (auto simp: nth_list_update less_Suc_eq)
qed

lemma fill_loop:
  "fold (\<lambda>i ys. ys[i := f i]) [0..<length xs] xs = map f [0..<length xs]"
  using fill_loop_nth[of "length xs" xs f] by (intro nth_equalityI) auto

lemma array_loop:
  assumes frame: "\<And>i t. without_arrays (body i t) = without_arrays t"
    and am: "\<And>i t. without_arrays t = without_arrays s \<Longrightarrow>
               amplitudes (body i t) = (amplitudes t)[i := a i]"
    and fr: "\<And>i t. without_arrays t = without_arrays s \<Longrightarrow>
               frequencies (body i t) = (frequencies t)[i := b i]"
    and len: "length (amplitudes s) = k" "length (frequencies s) = k"
  shows "fold body [0..<k] s = s\<lparr>amplitudes := map a [0..<k], frequencies := map b [0..<k]\<rparr>"
proof -
  let ?I = "\<lambda>t. without_arrays t = without_arrays s"
  have 1: "?I (fold body [0..<k] s) \<and>
      amplitudes (fold body [0..<k] s) = fold (\<lambda>i ys. ys[i := a i]) [0..<k] (amplitudes s)"
    by (rule fold_proj[where I = ?I]) (simp_all add: frame am)
  have 2: "?I (fold body [0..<k] s) \<and>
      frequencies (fold body [0..<k] s) = fold (\<lambda>i ys. ys[i := b i]) [0..<k] (frequencies s)"
    by (rule fold_proj[where I = ?I]) (simp_all add: frame fr)
  from 1 have "fold body [0..<k] s =
      s\<lparr>amplitudes := amplitudes (fold body [0..<k] s),
        frequencies := frequencies (fold body [0..<k] s)\<rparr>"
    by (intro rebuild_arrays) simp
  then show ?thesis
    using 1 2 fill_loop[of a "amplitudes s"] fill_loop[of b "frequencies s"] len by simp
qed

lemma restore_base_eq:
  assumes "length (amplitudes s) = n_oscillators s" "length (frequencies s) = n_oscillators s"
  shows "restore_base s =
     s\<lparr>amplitudes := map (\<lambda>i. amplitude s) [0..<n_oscillators s],
       frequencies := map (\<lambda>i. base_frequency s) [0..<n_oscillators s]\<rparr>"
  unfolding restore_base_def
proof (rule array_loop)
  fix i t
  assume "without_arrays t = without_arrays s"
  then have "amplitude t = amplitude s" "base_frequency t = base_frequency s"
    by (rule without_arrays_fields)+
  then show "amplitudes (t\<lparr>amplitudes := (amplitudes t)[i := amplitude t],
                    frequencies := (frequencies t)[i := base_frequency t]\<rparr>) =
     (amplitudes t)[i := amplitude s]"
    "frequencies (t\<lparr>amplitudes := (amplitudes t)[i := amplitude t],
                    frequencies := (frequencies t)[i := base_frequency t]\<rparr>) =
     (frequencies t)[i := base_frequency s]"
    by simp_all
qed (simp_all add: without_arrays_def assms)


lemma turn_right_eq:
  assumes "length (amplitudes s) = n_oscillators s" "length (frequencies s) = n_oscillators s"
  shows "turn_right factor s =
     s\<lparr>turning := True, turning_direction := Some ''right'',
       turning_factor := max 0 (min 1 factor),
       amplitudes := map (\<lambda>i. if i mod 2 = 0
            then amplitude s * (1 - max 0 (min 1 factor) * 0.5)
            else amplitude s * (1 + max 0 (min 1 factor) * 0.5)) [0..<n_oscillators s],
       frequencies := map (\<lambda>i. if i mod 2 = 0
            then base_frequency s * (1 - max 0 (min 1 factor) * 0.3)
            else base_frequency s * (1 + max 0 (min 1 factor) * 0.3)) [0..<n_oscillators s]\<rparr>"
proof -
  define tf where "tf = max 0 (min 1 factor)"
  define s1 where
    "s1 = s\<lparr>turning := True, turning_direction := Some ''right'', turning_factor := tf\<rparr>"
  let ?body = "\<lambda>i t.
           if i mod 2 = 0 then
             t\<lparr>amplitudes := (amplitudes t)[i := amplitude t * (1 - tf * 0.5)],
               frequencies := (frequencies t)[i := base_frequency t * (1 - tf * 0.3)]\<rparr>
           else
             t\<lparr>amplitudes := (amplitudes t)[i := amplitude t * (1 + tf * 0.5)],
               frequencies := (frequencies t)[i := base_frequency t * (1 + tf * 0.3)]\<rparr>"
  have "turn_right factor s = fold ?body [0..<n_oscillators s] s1"
    unfolding turn_right_def Let_def tf_def s1_def by simp
  also have "\<dots> = s1\<lparr>amplitudes := map (\<lambda>i. if i mod 2 = 0
            then amplitude s * (1 - tf * 0.5) else amplitude s * (1 + tf * 0.5)) [0..<n_oscillators s],
       frequencies := map (\<lambda>i. if i mod 2 = 0
            then base_frequency s * (1 - tf * 0.3)
            else base_frequency s * (1 + tf * 0.3)) [0..<n_oscillators s]\<rparr>"
  proof (rule array_loop)
    fix i t
    assume "without_arrays t = without_arrays s1"
    then have "amplitude t = amplitude s1" "base_frequency t = base_frequency s1"
      by (rule without_arrays_fields)+
    then have *: "amplitude t = amplitude s" "base_frequency t = base_frequency s"
      by (simp_all add: s1_def)
    show "amplitudes (?body i t) = (amplitudes t)[i := if i mod 2 = 0
            then amplitude s * (1 - tf * 0.5) else amplitude s * (1 + tf * 0.5)]"
      by (simp add: *)
    show "frequencies (?body i t) = (frequencies t)[i := if i mod 2 = 0
            then base_frequency s * (1 - tf * 0.3) else base_frequency s * (1 + tf * 0.3)]"
      by (simp add: *)
  qed (simp_all add: without_arrays_def s1_def assms)
  finally show ?thesis by (simp add: s1_def tf_def)
qed

lemma turn_left_eq:
  assumes "length (amplitudes s) = n_oscillators s" "length (frequencies s) = n_oscillators s"
  shows "turn_left factor s =
     s\<lparr>turning := True, turning_direction := Some ''left'',
       turning_factor := max 0 (min 1 factor),
       amplitudes := map (\<lambda>i. if i mod 2 = 0
            then amplitude s * (1 + max 0 (min 1 factor) * 0.5)
            else amplitude s * (1 - max 0 (min 1 factor) * 0.5)) [0..<n_oscillators s],
       frequencies := map (\<lambda>i. if i mod 2 = 0
            then base_frequency s * (1 + max 0 (min 1 factor) * 0.3)
            else base_frequency s * (1 - max 0 (min 1 factor) * 0.3)) [0..<n_oscillators s]\<rparr>"
proof -
  define tf where "tf = max 0 (min 1 factor)"
  define s1 where
    "s1 = s\<lparr>turning := True, turning_direction := Some ''left'', turning_factor := tf\<rparr>"
  let ?body = "\<lambda>i t.
           if i mod 2 = 0 then
             t\<lparr>amplitudes := (amplitudes t)[i := amplitude t * (1 + tf * 0.5)],
               frequencies := (frequencies t)[i := base_frequency t * (1 + tf * 0.3)]\<rparr>
           else
             t\<lparr>amplitudes := (amplitudes t)[i := amplitude t * (1 - tf * 0.5)],
               frequencies := (frequencies t)[i := base_frequency t * (1 - tf * 0.3)]\<rparr>"
  have "turn_left factor s = fold ?body [0..<n_oscillators s] s1"
    unfolding turn_left_def Let_def tf_def s1_def by simp
  also have "\<dots> = s1\<lparr>amplitudes := map (\<lambda>i. if i mod 2 = 0
            then amplitude s * (1 + tf * 0.5) else amplitude s * (1 - tf * 0.5)) [0..<n_oscillators s],
       frequencies := map (\<lambda>i. if i mod 2 = 0
            then base_frequency s * (1 + tf * 0.3)
            else base_frequency s * (1 - tf * 0.3)) [0..<n_oscillators s]\<rparr>"
  proof (rule array_loop)
    fix i t
    assume "without_arrays t = without_arrays s1"
    then have "amplitude t = amplitude s1" "base_frequency t = base_frequency s1"
      by (rule without_arrays_fields)+
    then have *: "amplitude t = amplitude s" "base_frequency t = base_frequency s"
      by (simp_all add: s1_def)
    show "amplitudes (?body i t) = (amplitudes t)[i := if i mod 2 = 0
            then amplitude s * (1 + tf * 0.5) else amplitude s * (1 - tf * 0.5)]"
      by (simp add: *)
    show "frequencies (?body i t) = (frequencies t)[i := if i mod 2 = 0
            then base_frequency s * (1 + tf * 0.3) else base_frequency s * (1 - tf * 0.3)]"
      by (simp add: *)
  qed (simp_all add: without_arrays_def s1_def assms)
  finally show ?thesis by (simp add: s1_def tf_def)
qed

lemma stop_turning_eq:
  assumes "length (amplitudes s) = n_oscillators s" "length (frequencies s) = n_oscillators s"
  shows "stop_turning s =
     s\<lparr>turning := False, turning_direction := None, turning_factor := 0,
       amplitudes := map (\<lambda>i. amplitude s) [0..<n_oscillators s],
       frequencies := map (\<lambda>i. base_frequency s) [0..<n_oscillators s]\<rparr>"
  using assms by (simp add: stop_turning_def restore_base_eq)

lemma seed_state_nth:
  "length (seed_state k) = 2 * k"
  "a < 2 * k \<Longrightarrow> seed_state k ! a = (if even a then 0.1 else 0)"
proof -
  have *: "c \<le> k \<Longrightarrow> length (fold (\<lambda>i st. st[2 * i := 0.1]) [0..<c] (replicate (2 * k) (0::real))) = 2 * k \<and>
      (\<forall>a<2 * k. fold (\<lambda>i st. st[2 * i := 0.1]) [0..<c] (replicate (2 * k) (0::real)) ! a =
         (if even a \<and> a < 2 * c then 0.1 else 0))" for c
  proof (induction c)
    case 0
    then show ?case by simp
  next
    case (Suc c)
    then show ?case
      by (auto simp: nth_list_update elim!: evenE) 
  qed
  from *[of k] show "length (seed_state k) = 2 * k"
    "a < 2 * k \<Longrightarrow> seed_state k ! a = (if even a then 0.1 else 0)"
    by (simp_all add: seed_state_def)
qed

lemma reset_eq:
  assumes "length (amplitudes s) = n_oscillators s" "length (frequencies s) = n_oscillators s"
  shows "reset now s =
     s\<lparr>state := seed_state (n_oscillators s), last_update_time := now,
       amplitudes := map (\<lambda>i. amplitude s) [0..<n_oscillators s],
       frequencies := map (\<lambda>i. base_frequency s) [0..<n_oscillators s],
       turning := False, turning_direction := None, turning_factor := 0\<rparr>"
  using assms by (simp add: reset_def restore_base_eq Let_def)

lemma reset_led_eq:
  assumes "length (amplitudes s) = n_oscillators s" "length (frequencies s) = n_oscillators s"
  shows "reset_led now s =
     s\<lparr>state := seed_state (n_oscillators s), last_update_time := now,
       amplitudes := map (\<lambda>i. amplitude s) [0..<n_oscillators s],
       frequencies := map (\<lambda>i. base_frequency s) [0..<n_oscillators s]\<rparr>"
  using assms by (simp add: reset_led_def restore_base_eq Let_def)


text \<open>
  \<^verbatim>\<open>reset\<close> of \<^verbatim>\<open>cpg_loconetwork.py\<close> reseeds every oscillator at \<open>(0.1, 0)\<close>, restores
  the amplitudes and frequencies, clears the turning state and leaves gait, direction
  and both matrices alone.
\<close>

lemma reset_restores:
  assumes "length (amplitudes s) = n_oscillators s" "length (frequencies s) = n_oscillators s"
    and "i < n_oscillators s"
  shows "length (state (reset now s)) = 2 * n_oscillators s \<and>
     state (reset now s) ! (2 * i) = 0.1 \<and> state (reset now s) ! (2 * i + 1) = 0 \<and>
     amplitudes (reset now s) ! i = amplitude s \<and>
     frequencies (reset now s) ! i = base_frequency s \<and>
     \<not> turning (reset now s) \<and> turning_direction (reset now s) = None \<and>
     turning_factor (reset now s) = 0 \<and>
     current_gait (reset now s) = current_gait s \<and>
     direction_phase (reset now s) = direction_phase s \<and>
     coupling_weights (reset now s) = coupling_weights s \<and>
     phase_biases (reset now s) = phase_biases s"
  using assms(3) by (simp add: reset_eq[OF assms(1,2)] seed_state_nth)

text \<open>
  Claim C4. For every factor, with \<open>f\<close> the factor clamped into \<open>[0, 1]\<close>: a right turn
  gives every even oscillator the amplitude \<open>base \<sqdot> (1 - 0.5 f)\<close> and the frequency
  \<open>base \<sqdot> (1 - 0.3 f)\<close> and every odd oscillator the increased values
  \<open>1 + 0.5 f\<close>, \<open>1 + 0.3 f\<close>; a left turn does the opposite. The turning state
  records the direction and \<open>f\<close>, and gait, direction phase and both matrices are as
  before.
\<close>

theorem turn_sets_stride_and_cadence:
  assumes "length (amplitudes s) = n_oscillators s" "length (frequencies s) = n_oscillators s"
    and "i < n_oscillators s"
  shows "(let f = max 0 (min 1 factor); r = turn_right factor s; l = turn_left factor s in
     0 \<le> f \<and> f \<le> 1 \<and>
     amplitudes r ! i = amplitude s * (if even i then 1 - 0.5 * f else 1 + 0.5 * f) \<and>
     frequencies r ! i = base_frequency s * (if even i then 1 - 0.3 * f else 1 + 0.3 * f) \<and>
     amplitudes l ! i = amplitude s * (if even i then 1 + 0.5 * f else 1 - 0.5 * f) \<and>
     frequencies l ! i = base_frequency s * (if even i then 1 + 0.3 * f else 1 - 0.3 * f) \<and>
     turning r \<and> turning_direction r = Some ''right'' \<and> turning_factor r = f \<and>
     turning l \<and> turning_direction l = Some ''left'' \<and> turning_factor l = f \<and>
     current_gait r = current_gait s \<and> direction_phase r = direction_phase s \<and>
     coupling_weights r = coupling_weights s \<and> phase_biases r = phase_biases s \<and>
     current_gait l = current_gait s \<and> direction_phase l = direction_phase s \<and>
     coupling_weights l = coupling_weights s \<and> phase_biases l = phase_biases s)"
  using assms(3)
  by (simp add: turn_right_eq[OF assms(1,2)] turn_left_eq[OF assms(1,2)] Let_def even_iff_mod_2_eq_zero
      mult.commute)

theorem turn_sets_stride_and_cadence_witness:
  "amplitudes (turn_right 2 (blank_net 6 1 1 1 0)) ! 0 = 1 / 2 \<and>
   frequencies (turn_right 2 (blank_net 6 1 1 1 0)) ! 0 = 7 / 10 \<and>
   amplitudes (turn_left 2 (blank_net 6 1 1 1 0)) ! 0 = 3 / 2 \<and>
   frequencies (turn_left 2 (blank_net 6 1 1 1 0)) ! 0 = 13 / 10 \<and>
   turning_factor (turn_right 2 (blank_net 6 1 1 1 0)) = 1"
  using turn_sets_stride_and_cadence[of "blank_net 6 1 1 1 0" 0 2]
  by (simp add: blank_net_def Let_def)

text \<open>
  Claim C7 says that \<^verbatim>\<open>reset\<close> clears the turning state. \<^verbatim>\<open>reset\<close> of
  \<^verbatim>\<open>ledlocotest.py\<close> restores the amplitudes and frequencies but leaves the three
  turning fields as the turn set them.
\<close>

theorem reset_led_keeps_turn_state:
  assumes "length (amplitudes s) = n_oscillators s" "length (frequencies s) = n_oscillators s"
    and "i < n_oscillators s"
  shows "(let s' = reset_led now (turn_right factor s) in
     amplitudes s' ! i = amplitude s \<and> frequencies s' ! i = base_frequency s \<and>
     turning s' \<and> turning_direction s' = Some ''right'' \<and>
     turning_factor s' = max 0 (min 1 factor))"
proof -
  let ?t = "turn_right factor s"
  have len: "length (amplitudes ?t) = n_oscillators ?t" "length (frequencies ?t) = n_oscillators ?t"
    by (simp_all add: turn_right_eq[OF assms(1,2)])
  show ?thesis
    unfolding Let_def reset_led_eq[OF len]
    using assms(3) by (simp add: turn_right_eq[OF assms(1,2)])
qed

theorem reset_led_keeps_turn_state_witness:
  "amplitudes (reset_led 0 (turn_right (1 / 2) (blank_net 6 1 1 1 0))) ! 0 = 1 \<and>
   turning (reset_led 0 (turn_right (1 / 2) (blank_net 6 1 1 1 0))) \<and>
   turning_direction (reset_led 0 (turn_right (1 / 2) (blank_net 6 1 1 1 0))) = Some ''right'' \<and>
   turning_factor (reset_led 0 (turn_right (1 / 2) (blank_net 6 1 1 1 0))) = 1 / 2"
  using reset_led_keeps_turn_state[of "blank_net 6 1 1 1 0" 0 0 "1 / 2"]
  by (simp add: blank_net_def Let_def)

section \<open>Dynamics and ticks\<close>

lemma coupling_step_plain:
  assumes "coupling_weights p = coupling_weights s" "phase_biases p = phase_biases s"
  shows "coupling_step p st i = coupling_step s st i"
  unfolding coupling_step_def assms by simp

lemma oscillator_plain_eq:
  assumes "matches_plain p s" "i < n_oscillators s"
  shows "oscillator_plain p st i = oscillator s st i"
proof -
  from assms have f: "frequencies s ! i = base_frequency s" "amplitudes s ! i = amplitude s"
    by (simp_all add: matches_plain_def list_all_iff)
  from assms(1) have c: "coupling_step p st i = coupling_step s st i"
    by (intro coupling_step_plain) (simp_all add: matches_plain_def)
  from assms(1) have "n_oscillators p = n_oscillators s" "mu p = mu s" "amplitude p = amplitude s"
      "omega p = 2 * pi * base_frequency s"
    by (simp_all add: matches_plain_def)
  then show ?thesis
    by (simp add: oscillator_plain_def oscillator_def f c Let_def)
qed

lemma equations_plain_eq:
  assumes "matches_plain p s"
  shows "equations_plain p = equations s"
proof (intro ext)
  fix st t
  from assms have n: "n_oscillators p = n_oscillators s" by (simp add: matches_plain_def)
  have "fold (store_derivative (oscillator_plain p st)) [0..<n_oscillators s] d =
        fold (store_derivative (oscillator s st)) [0..<n_oscillators s] d" for d
    by (rule fold_cong) (auto simp: store_derivative_def oscillator_plain_eq[OF assms])
  then show "equations_plain p st t = equations s st t"
    by (simp add: equations_plain_def equations_def n)
qed


lemma step_size_matches:
  assumes "matches_plain p s" "state p = state s" "last_update_time p = last_update_time s"
  shows "fst (step_size now dt p) = fst (step_size now dt s)"
    and "matches_plain (snd (step_size now dt p)) (snd (step_size now dt s))"
    and "state (snd (step_size now dt p)) = state (snd (step_size now dt s))"
    and "last_update_time (snd (step_size now dt p)) = last_update_time (snd (step_size now dt s))"
  using assms by (cases dt; simp add: step_size_def matches_plain_def)+

lemma update_plain_same_tick:
  assumes "matches_plain p s" "state p = state s" "last_update_time p = last_update_time s"
  shows "same_tick (update_plain integ now dt p) (update integ now dt s)"
proof -
  obtain dt1 p1 where p1: "step_size now dt p = (dt1, p1)" by (cases "step_size now dt p")
  obtain dt2 s1 where s1: "step_size now dt s = (dt2, s1)" by (cases "step_size now dt s")
  from step_size_matches[OF assms, of now dt] p1 s1
  have m: "dt1 = dt2" "matches_plain p1 s1" "state p1 = state s1"
    "last_update_time p1 = last_update_time s1" by simp_all
  have e: "equations_plain p1 = equations s1" by (rule equations_plain_eq[OF m(2)])
  have n: "n_oscillators p1 = n_oscillators s1" using m(2) by (simp add: matches_plain_def)
  have m2: "matches_plain (p1\<lparr>state := v\<rparr>) (s1\<lparr>state := v\<rparr>)" for v
    using m(2) by (simp add: matches_plain_def)
  show ?thesis
    unfolding update_plain_def update_def p1 s1 prod.case e m(1) m(3)
    by (cases "integ (equations s1) (state s1) [0, dt2]")
       (auto simp: same_tick_def m n m2 Let_def split: sum.splits)
qed


text \<open>
  After construction, \<^verbatim>\<open>reset\<close> and \<^verbatim>\<open>stop_turning\<close> every per-oscillator amplitude and
  frequency is at its base value, which is what \<open>matches_plain\<close> asks of them.
\<close>

lemma arrays_at_base:
  assumes "length (amplitudes s) = n_oscillators s" "length (frequencies s) = n_oscillators s"
    and "t = reset now s \<or> t = stop_turning s"
  shows "list_all (\<lambda>i. frequencies t ! i = base_frequency t \<and> amplitudes t ! i = amplitude t)
           [0..<n_oscillators t]"
  using assms(3)
  by (auto simp: reset_eq[OF assms(1,2)] stop_turning_eq[OF assms(1,2)] list_all_iff)

lemma arrays_at_base_blank:
  "list_all (\<lambda>i. frequencies (blank_net k amp f m now) ! i = base_frequency (blank_net k amp f m now) \<and>
                 amplitudes (blank_net k amp f m now) ! i = amplitude (blank_net k amp f m now))
     [0..<n_oscillators (blank_net k amp f m now)]"
  by (simp add: blank_net_def list_all_iff)

text \<open>
  Claim C10. Whenever every per-oscillator frequency and amplitude of the extended
  network is at its base value, and the plain network has the same parameters and
  matrices, the two derivative functions are the same function; one tick of each from
  the same state vector then gives the same outputs and the same new state vector (or
  the same error), and the two objects match again, so whole trajectories agree.
\<close>

theorem extended_refines_plain:
  assumes "matches_plain p s"
  shows "equations s = equations_plain p \<and>
     (state p = state s \<and> last_update_time p = last_update_time s \<longrightarrow>
        same_tick (update_plain integ now dt p) (update integ now dt s))"
  using equations_plain_eq[OF assms] update_plain_same_tick[OF assms] by simp

lemma upt_2: "[0..<2] = [0, Suc 0]"
  by (simp add: numeral_2_eq_2)

lemma sample_matches: "matches_plain sample_plain sample_net"
  by (simp add: matches_plain_def sample_plain_def sample_net_def upt_2)

theorem extended_refines_plain_witness:
  "equations sample_net = equations_plain sample_plain \<and>
   same_tick (update_plain euler_odeint 0 (Some 1) sample_plain)
             (update euler_odeint 0 (Some 1) sample_net)"
  using extended_refines_plain[OF sample_matches, of euler_odeint 0 "Some 1"]
  by (simp add: sample_plain_def sample_net_def)



lemma zero_tick_unchanged:
  assumes "zero_step_ok integ (equations s) (state s)"
  shows "update integ now (Some 0) s =
     (case outputs (n_oscillators s) (state s) of
        Inl e \<Rightarrow> Inl (e, s)
      | Inr xs \<Rightarrow> Inr (s, xs))"
proof -
  from assms obtain trajectory where
    t: "integ (equations s) (state s) [0, 0] = Inr trajectory" "trajectory \<noteq> []"
       "last trajectory = state s"
    by (auto simp: zero_step_ok_def split: sum.splits)
  have "s\<lparr>state := state s\<rparr> = s" by simp
  then show ?thesis
    by (simp add: update_def step_size_def t Let_def)
qed

lemma update_returns_outputs:
  assumes "update integ now dt s0 = Inr (s, xs)"
  shows "outputs (n_oscillators s) (state s) = Inr xs"
  using assms
  by (auto simp: update_def Let_def split: prod.splits sum.splits if_splits)

text \<open>
  Claim C5. A tick with \<open>dt = 0\<close>, after a tick that returned the outputs \<open>xs\<close> and left
  the object \<open>s\<close>, returns \<open>xs\<close> again and leaves \<open>s\<close> as it is, state vector and every
  other field; the integrator is any one that honours a step of length zero.
\<close>

theorem zero_tick_is_noop:
  assumes "update integ now0 dt0 s0 = Inr (s, xs)"
    and "zero_step_ok integ (equations s) (state s)"
  shows "update integ now (Some 0) s = Inr (s, xs)"
  by (simp add: zero_tick_unchanged[OF assms(2)] update_returns_outputs[OF assms(1)])

lemma store_derivative_length: "length (fold (store_derivative f) is d) = length d"
  by (induction "is" arbitrary: d) (simp_all add: store_derivative_def split: prod.splits)

lemma euler_zero_step:
  assumes "2 * n_oscillators s \<le> length (state s)"
  shows "zero_step_ok euler_odeint (equations s) (state s)"
proof -
  obtain dy where dy: "equations s (state s) 0 = Inr dy" "length dy = length (state s)"
    using assms by (simp add: equations_def store_derivative_length)
  have "map2 (\<lambda>y d. y + (0 - 0) * d) (state s) dy = map fst (zip (state s) dy)"
    by (simp add: case_prod_unfold)
  also have "\<dots> = state s" using dy(2) by simp
  finally show ?thesis
    by (simp add: zero_step_ok_def euler_odeint_def dy(1))
qed

lemma sample_tick:
  "update euler_odeint 0 (Some (1 / 2)) sample_net =
     Inr (sample_net\<lparr>state := [99 / 2000, pi / 10, 99 / 2000, pi / 10]\<rparr>, [99 / 2000, 99 / 2000])"
  by (simp add: update_def step_size_def euler_odeint_def equations_def sample_net_def
      outputs_def upt_2 store_derivative_def oscillator_def coupling_step_def get2_def
      Let_def eval_nat_numeral power2_eq_square)

theorem zero_tick_is_noop_witness:
  "update euler_odeint 5 (Some 0) (sample_net\<lparr>state := [99 / 2000, pi / 10, 99 / 2000, pi / 10]\<rparr>) =
     Inr (sample_net\<lparr>state := [99 / 2000, pi / 10, 99 / 2000, pi / 10]\<rparr>, [99 / 2000, 99 / 2000])"
  by (rule zero_tick_is_noop[OF sample_tick euler_zero_step]) (simp add: sample_net_def)

text \<open>
  What the program itself contributes to the limit cycle of the single oscillator is
  the vector field: along it the squared radius \<open>r\<^sup>2 = x\<^sup>2 + y\<^sup>2\<close> changes at the rate
  \<open>2\<mu>(A - r\<^sup>2) r\<^sup>2\<close>, which vanishes on the circle \<open>r\<^sup>2 = A\<close>. How a trajectory
  approaches that circle is decided by the integrator.
\<close>

lemma hopf_equations_pair:
  "hopf_equations h [x, y] t =
     Inr [hopf_mu h * (hopf_amplitude h - (x ^ 2 + y ^ 2)) * x - hopf_omega h * y,
          hopf_mu h * (hopf_amplitude h - (x ^ 2 + y ^ 2)) * y + hopf_omega h * x]"
  by (simp add: hopf_equations_def Let_def)

lemma hopf_radial_rate:
  assumes "hopf_equations h [x, y] t = Inr [dx, dy]"
  shows "2 * (x * dx + y * dy) =
           2 * hopf_mu h * (hopf_amplitude h - (x ^ 2 + y ^ 2)) * (x ^ 2 + y ^ 2)"
proof -
  from assms have dx: "dx = hopf_mu h * (hopf_amplitude h - (x ^ 2 + y ^ 2)) * x - hopf_omega h * y"
    and dy: "dy = hopf_mu h * (hopf_amplitude h - (x ^ 2 + y ^ 2)) * y + hopf_omega h * x"
    by (simp_all add: hopf_equations_pair)
  show ?thesis unfolding dx dy by (simp add: power2_eq_square algebra_simps)
qed

lemma hopf_circle_invariant:
  assumes "hopf_equations h [x, y] t = Inr [dx, dy]" and "x ^ 2 + y ^ 2 = hopf_amplitude h"
  shows "x * dx + y * dy = 0"
  using hopf_radial_rate[OF assms(1)] assms(2) by simp

section \<open>Invariants of the reachable networks\<close>

lemma py_mod_range:
  assumes "0 < y"
  shows "0 \<le> py_mod x y" "py_mod x y < y"
proof -
  have "of_int \<lfloor>x / y\<rfloor> \<le> x / y" by simp
  then have lo: "of_int \<lfloor>x / y\<rfloor> * y \<le> x"
    using assms by (simp only: pos_le_divide_eq)
  have "x / y < of_int \<lfloor>x / y\<rfloor> + 1" by linarith
  then have hi: "x < (of_int \<lfloor>x / y\<rfloor> + 1) * y"
    using assms by (simp only: pos_divide_less_eq)
  from lo show "0 \<le> py_mod x y" by (simp add: py_mod_def mult.commute)
  from hi show "py_mod x y < y" by (simp add: py_mod_def algebra_simps)
qed

lemma wave_phase_range:
  assumes "i < k" "j < k"
  shows "0 \<le> (2 * pi / real k) * of_int ((int j - int i) mod int k)"
    and "(2 * pi / real k) * of_int ((int j - int i) mod int k) < 2 * pi"
proof -
  from assms have k: "0 < int k" by simp
  let ?m = "(int j - int i) mod int k"
  have m: "0 \<le> ?m" "?m < int k" using k by simp_all
  then have r: "0 \<le> (of_int ?m :: real)" "(of_int ?m :: real) < real k"
    by (simp, metis of_int_less_iff of_int_of_nat_eq)
  show "0 \<le> (2 * pi / real k) * of_int ?m" using r(1) by simp
  have "(2 * pi / real k) * of_int ?m < (2 * pi / real k) * real k"
    using r(2) assms by (intro mult_strict_left_mono) simp_all
  then show "(2 * pi / real k) * of_int ?m < 2 * pi" using assms by simp
qed


lemma matrices_ok_tripod:
  assumes "n_oscillators s' = n_oscillators s"
    "coupling_weights s' = gait_weights (n_oscillators s) c"
    "phase_biases s' = tripod_phases (n_oscillators s)"
  shows "matrices_ok s'"
  unfolding matrices_ok_def assms
  by (simp add: gait_weights_def tripod_phases_def is_mat_mat_of get2_def mat_of_nth)

lemma matrices_ok_wave:
  assumes "n_oscillators s' = n_oscillators s"
    "coupling_weights s' = gait_weights (n_oscillators s) c"
    "phase_biases s' = wave_phases (n_oscillators s)"
  shows "matrices_ok s'"
  unfolding matrices_ok_def assms
  using wave_phase_range
  by (simp add: gait_weights_def wave_phases_def is_mat_mat_of get2_def mat_of_nth)

lemma matrices_ok_shifted:
  assumes "matrices_ok s" "n_oscillators s' = n_oscillators s"
    "coupling_weights s' = coupling_weights s"
    "phase_biases s' = shifted dp (phase_biases s)"
  shows "matrices_ok s'"
proof -
  from assms(1) have len: "length (phase_biases s) = n_oscillators s"
    by (simp add: matrices_ok_def is_mat_def)
  have "0 < 2 * pi" by simp
  note r = py_mod_range[OF this]
  show ?thesis
    using assms(1) unfolding matrices_ok_def assms(2-4)
    by (simp add: shifted_def len is_mat_mat_of get2_def mat_of_nth r)
qed

lemma weights_nonneg_gait:
  assumes "0 \<le> c" "n_oscillators s' = n_oscillators s"
    "coupling_weights s' = gait_weights (n_oscillators s) c"
  shows "weights_nonneg s'"
  unfolding weights_nonneg_def assms(2,3)
  using assms(1) by (simp add: gait_weights_def get2_def mat_of_nth)

lemma setters_nl_keep:
  "matrices_ok (set_tripod_gait_nl c r s)" "matrices_ok (set_wave_gait_nl c r s)"
  "arrays_ok s \<Longrightarrow> arrays_ok (set_tripod_gait_nl c r s)"
  "arrays_ok s \<Longrightarrow> arrays_ok (set_wave_gait_nl c r s)"
  "0 \<le> c \<Longrightarrow> weights_nonneg (set_tripod_gait_nl c r s)"
  "0 \<le> c \<Longrightarrow> weights_nonneg (set_wave_gait_nl c r s)"
proof -
  show "matrices_ok (set_tripod_gait_nl c r s)"
    by (rule matrices_ok_tripod[of _ s c]) (simp_all add: set_tripod_gait_nl_eq)
  show "matrices_ok (set_wave_gait_nl c r s)"
    by (rule matrices_ok_wave[of _ s c]) (simp_all add: set_wave_gait_nl_eq)
  show "arrays_ok s \<Longrightarrow> arrays_ok (set_tripod_gait_nl c r s)"
    "arrays_ok s \<Longrightarrow> arrays_ok (set_wave_gait_nl c r s)"
    by (simp_all add: arrays_ok_def set_tripod_gait_nl_eq set_wave_gait_nl_eq)
  show "0 \<le> c \<Longrightarrow> weights_nonneg (set_tripod_gait_nl c r s)"
    by (rule weights_nonneg_gait[of c _ s]) (simp_all add: set_tripod_gait_nl_eq)
  show "0 \<le> c \<Longrightarrow> weights_nonneg (set_wave_gait_nl c r s)"
    by (rule weights_nonneg_gait[of c _ s]) (simp_all add: set_wave_gait_nl_eq)
qed

lemma apply_direction_keeps:
  assumes "matrices_ok s"
  shows "matrices_ok (apply_direction s)"
    and "arrays_ok s \<Longrightarrow> arrays_ok (apply_direction s)"
    and "weights_nonneg s \<Longrightarrow> weights_nonneg (apply_direction s)"
proof -
  from assms have m: "is_mat (n_oscillators s) (phase_biases s)"
    by (simp add: matrices_ok_def)
  show "matrices_ok (apply_direction s)"
  proof (cases "direction_phase s = 0")
    case True
    then show ?thesis using assms by (simp add: apply_direction_eq[OF m])
  next
    case False
    show ?thesis
      by (rule matrices_ok_shifted[OF assms, of _ "direction_phase s"])
         (simp_all add: apply_direction_eq[OF m] False)
  qed
  show "arrays_ok s \<Longrightarrow> arrays_ok (apply_direction s)"
    by (simp add: apply_direction_eq[OF m] arrays_ok_def)
  show "weights_nonneg s \<Longrightarrow> weights_nonneg (apply_direction s)"
    by (simp add: apply_direction_eq[OF m] weights_nonneg_def)
qed

text \<open>
  A property kept by the gait setters (for the strengths in \<open>C\<close>) and by the direction
  shift holds of whatever object the three recursive methods leave behind.
\<close>

lemma recursion_keeps:
  assumes tri: "\<And>c r s. C c \<Longrightarrow> Q s \<Longrightarrow> Q (set_tripod_gait_nl c r s)"
    and wav: "\<And>c r s. C c \<Longrightarrow> Q s \<Longrightarrow> Q (set_wave_gait_nl c r s)"
    and dir: "\<And>s. Q s \<Longrightarrow> Q (apply_direction s)"
    and one: "C 1"
  shows "Q s \<Longrightarrow> C c \<Longrightarrow>
     Q (outcome (set_tripod_gait d c r s)) \<and>
     Q (outcome (set_wave_gait d c r s)) \<and>
     Q (outcome (update_phase_relationships d s))"
proof (induction d arbitrary: s c r)
  case 0
  then show ?case by (simp add: outcome_def)
next
  case (Suc d)
  have t: "Q (outcome (set_tripod_gait (Suc d) c r s))"
    using Suc.IH[OF tri[OF Suc.prems(2,1)] Suc.prems(2)] tri[OF Suc.prems(2,1)]
    by (simp add: Let_def outcome_def)
  have w: "Q (outcome (set_wave_gait (Suc d) c r s))"
    using Suc.IH[OF wav[OF Suc.prems(2,1)] Suc.prems(2)] wav[OF Suc.prems(2,1)]
    by (simp add: Let_def outcome_def)
  have u: "Q (outcome (update_phase_relationships (Suc d) s))"
    using Suc.IH[OF Suc.prems(1) one, of False] dir Suc.prems(1)
    by (auto simp: outcome_def split: sum.splits)
  from t w u show ?case by simp
qed


lemma sound_frame:
  assumes "sound s" "n_oscillators s' = n_oscillators s"
    "coupling_weights s' = coupling_weights s" "phase_biases s' = phase_biases s"
    "length (amplitudes s') = n_oscillators s" "length (frequencies s') = n_oscillators s"
  shows "sound s'"
  using assms by (simp add: sound_def matrices_ok_def arrays_ok_def)


lemma update_frame:
  "n_oscillators (outcome (perform integ now d (Update dt) s)) = n_oscillators s \<and>
   coupling_weights (outcome (perform integ now d (Update dt) s)) = coupling_weights s \<and>
   phase_biases (outcome (perform integ now d (Update dt) s)) = phase_biases s \<and>
   amplitudes (outcome (perform integ now d (Update dt) s)) = amplitudes s \<and>
   frequencies (outcome (perform integ now d (Update dt) s)) = frequencies s"
  by (cases dt)
     (auto simp: update_def step_size_def outcome_def Let_def split: sum.splits prod.splits)

text \<open>
  Such a property, if it only depends on the number of oscillators, the two matrices
  and the lengths of the per-oscillator arrays, is kept by every call of the interface.
\<close>

lemma perform_keeps:
  assumes tri: "\<And>c r s. C c \<Longrightarrow> Q s \<Longrightarrow> Q (set_tripod_gait_nl c r s)"
    and wav: "\<And>c r s. C c \<Longrightarrow> Q s \<Longrightarrow> Q (set_wave_gait_nl c r s)"
    and dir: "\<And>s. Q s \<Longrightarrow> Q (apply_direction s)"
    and one: "C 1"
    and frame: "\<And>s s'. Q s \<Longrightarrow> n_oscillators s' = n_oscillators s \<Longrightarrow>
        coupling_weights s' = coupling_weights s \<Longrightarrow> phase_biases s' = phase_biases s \<Longrightarrow>
        length (amplitudes s') = n_oscillators s \<Longrightarrow>
        length (frequencies s') = n_oscillators s \<Longrightarrow> Q s'"
    and lens: "\<And>s. Q s \<Longrightarrow> arrays_ok s"
    and tri_ok: "\<And>w r. c = SetTripodGait w r \<Longrightarrow> C w"
    and wav_ok: "\<And>w r. c = SetWaveGait w r \<Longrightarrow> C w"
    and "Q s"
  shows "Q (outcome (perform integ now d c s))"
proof -
  have rec: "Q (outcome (set_tripod_gait d w r t)) \<and>
     Q (outcome (set_wave_gait d w r t)) \<and>
     Q (outcome (update_phase_relationships d t))" if "Q t" "C w" for t w r d
    using that(1,2)
    by (rule recursion_keeps[where Q = Q and C = C, rotated -2]) (use tri wav dir one in auto)
  from lens[OF \<open>Q s\<close>] have len: "length (amplitudes s) = n_oscillators s"
    "length (frequencies s) = n_oscillators s"
    by (simp_all add: arrays_ok_def)
  have dirn: "Q (s\<lparr>direction_phase := x\<rparr>)" for x
    by (rule frame[OF \<open>Q s\<close>]) (simp_all add: len)
  show ?thesis
  proof (cases c)
    case (Update dt)
    show ?thesis unfolding Update
      by (rule frame[OF \<open>Q s\<close>]) (use update_frame[of integ now d dt s] len in simp_all)
  next
    case (SetTripodGait w r)
    then show ?thesis using rec[OF \<open>Q s\<close> tri_ok[OF SetTripodGait]] by simp
  next
    case (SetWaveGait w r)
    then show ?thesis using rec[OF \<open>Q s\<close> wav_ok[OF SetWaveGait]] by simp
  next
    case (TurnRight f)
    show ?thesis unfolding TurnRight
      by (rule frame[OF \<open>Q s\<close>]) (simp_all add: outcome_def turn_right_eq[OF len])
  next
    case (TurnLeft f)
    show ?thesis unfolding TurnLeft
      by (rule frame[OF \<open>Q s\<close>]) (simp_all add: outcome_def turn_left_eq[OF len])
  next
    case StopTurning
    show ?thesis unfolding StopTurning
      by (rule frame[OF \<open>Q s\<close>]) (simp_all add: outcome_def stop_turning_eq[OF len])
  next
    case (SetBackward b)
    show ?thesis
    proof (cases d)
      case 0
      then show ?thesis using \<open>Q s\<close> SetBackward by (simp add: outcome_def)
    next
      case (Suc d')
      then show ?thesis using rec[OF dirn one] SetBackward by simp
    qed
  next
    case SetForward
    show ?thesis
    proof (cases d)
      case 0
      then show ?thesis using \<open>Q s\<close> SetForward by (simp add: outcome_def)
    next
      case (Suc d')
      show ?thesis
      proof (cases d')
        case 0
        then show ?thesis using \<open>Q s\<close> SetForward Suc by (simp add: outcome_def)
      next
        case (Suc d'')
        then show ?thesis using rec[OF dirn one] SetForward \<open>d = Suc d'\<close> by simp
      qed
    qed
  next
    case Reset
    show ?thesis unfolding Reset
      by (rule frame[OF \<open>Q s\<close>]) (simp_all add: outcome_def reset_eq[OF len])
  qed
qed

lemma perform_keeps_sound:
  assumes "sound s"
  shows "sound (outcome (perform integ now d c s))"
proof (rule perform_keeps[where Q = sound and C = "\<lambda>_. True"])
  show "\<And>s s'. sound s \<Longrightarrow> n_oscillators s' = n_oscillators s \<Longrightarrow>
        coupling_weights s' = coupling_weights s \<Longrightarrow> phase_biases s' = phase_biases s \<Longrightarrow>
        length (amplitudes s') = n_oscillators s \<Longrightarrow>
        length (frequencies s') = n_oscillators s \<Longrightarrow> sound s'"
    by (rule sound_frame)
qed (use assms in \<open>simp_all add: sound_def setters_nl_keep apply_direction_keeps\<close>)


lemma init_net_eq:
  "init_net (Suc d) (int k) amp f m now =
     Inr ((blank_net k amp f m now)\<lparr>coupling_weights := gait_weights k 1,
                                    phase_biases := tripod_phases k\<rparr>)"
  by (simp add: init_net_def set_tripod_gait_nl_eq blank_net_def)

lemma init_net_sound:
  assumes "init_net d n amp f m now = Inr s"
  shows "sound s \<and> weights_nonneg s"
proof -
  from assms have n: "0 \<le> n" by (auto simp: init_net_def split: if_splits)
  from assms obtain d' where d: "d = Suc d'"
    by (cases d) (auto simp: init_net_def split: if_splits)
  from n obtain k where k: "n = int k" using nonneg_int_cases by blast
  from assms have s: "s = (blank_net k amp f m now)\<lparr>coupling_weights := gait_weights k 1,
                                    phase_biases := tripod_phases k\<rparr>"
    unfolding d k init_net_eq by simp
  have "matrices_ok s"
    by (rule matrices_ok_tripod[of _ "blank_net k amp f m now" 1]) (simp_all add: s blank_net_def)
  moreover have "arrays_ok s" by (simp add: s arrays_ok_def blank_net_def)
  moreover have "weights_nonneg s"
    by (rule weights_nonneg_gait[of 1 _ "blank_net k amp f m now"]) (simp_all add: s blank_net_def)
  ultimately show ?thesis by (simp add: sound_def)
qed

lemma reachable_sound: "reachable integ allowed s \<Longrightarrow> sound s"
  by (induction rule: reachable.induct) (auto dest: init_net_sound intro: perform_keeps_sound)

lemma reachable_lengths: "reachable integ allowed s \<Longrightarrow> arrays_ok s"
  using reachable_sound by (auto simp: sound_def)





section \<open>Construction and argument checks\<close>

lemma update_stores:
  assumes "integ (equations s) (state s) [0, dt] = Inr trajectory" "trajectory \<noteq> []"
    "2 * n_oscillators s \<le> length (last trajectory)"
  shows "update integ now (Some dt) s =
     Inr (s\<lparr>state := last trajectory\<rparr>,
          map (\<lambda>i. last trajectory ! (2 * i)) [0..<n_oscillators s])"
  using assms by (auto simp: update_def step_size_def outputs_def Let_def)

text \<open>
  Claim C6, amended. The constructor rejects a negative \<open>n\<close> only (the allocation of
  the state vector fails before the object exists); from \<open>n = 0\<close> on it returns a
  network, empty for \<open>n = 0\<close>. \<^verbatim>\<open>update\<close> does not look at the sign of \<open>dt\<close>: whenever
  the integrator returns a trajectory for \<open>[0, dt]\<close>, its last vector is stored and its
  x components are returned.
\<close>

theorem construction_and_tick_unchecked:
  "(n < 0 \<longrightarrow> init_net d n amp f m now = Inl ValueError) \<and>
   (0 \<le> n \<longrightarrow> init_net (Suc d) n amp f m now =
      Inr ((blank_net (nat n) amp f m now)\<lparr>coupling_weights := gait_weights (nat n) 1,
                                             phase_biases := tripod_phases (nat n)\<rparr>)) \<and>
   (integ (equations s) (state s) [0, dt] = Inr trajectory \<and> trajectory \<noteq> [] \<and>
    2 * n_oscillators s \<le> length (last trajectory) \<longrightarrow>
      update integ now' (Some dt) s =
        Inr (s\<lparr>state := last trajectory\<rparr>,
             map (\<lambda>i. last trajectory ! (2 * i)) [0..<n_oscillators s]))"
proof (intro conjI impI)
  assume "n < 0"
  then show "init_net d n amp f m now = Inl ValueError" by (simp add: init_net_def)
next
  assume "0 \<le> n"
  then obtain k where "n = int k" using nonneg_int_cases by blast
  then show "init_net (Suc d) n amp f m now =
      Inr ((blank_net (nat n) amp f m now)\<lparr>coupling_weights := gait_weights (nat n) 1,
                                             phase_biases := tripod_phases (nat n)\<rparr>)"
    by (simp add: init_net_eq)
next
  assume "integ (equations s) (state s) [0, dt] = Inr trajectory \<and> trajectory \<noteq> [] \<and>
    2 * n_oscillators s \<le> length (last trajectory)"
  then show "update integ now' (Some dt) s =
        Inr (s\<lparr>state := last trajectory\<rparr>,
             map (\<lambda>i. last trajectory ! (2 * i)) [0..<n_oscillators s])"
    by (simp add: update_stores)
qed

lemma sample_backward_tick:
  "euler_odeint (equations sample_net) (state sample_net) [0, - 1] =
     Inr [[1 / 10, 0, 1 / 10, 0], [201 / 1000, - (pi / 5), 201 / 1000, - (pi / 5)]]"
  by (simp add: euler_odeint_def equations_def sample_net_def
      upt_2 store_derivative_def oscillator_def coupling_step_def get2_def
      Let_def eval_nat_numeral power2_eq_square)

theorem construction_and_tick_unchecked_witness:
  "init_net 1 (- 1) 1 1 1 0 = Inl ValueError \<and>
   init_net 1 0 1 1 1 0 = Inr (blank_net 0 1 1 1 0) \<and>
   update euler_odeint 0 (Some (- 1)) sample_net =
     Inr (sample_net\<lparr>state := [201 / 1000, - (pi / 5), 201 / 1000, - (pi / 5)]\<rparr>,
          [201 / 1000, 201 / 1000])"
  using construction_and_tick_unchecked[of "- 1" 1 1 1 1 0 euler_odeint sample_net "- 1"
      "[[1 / 10, 0, 1 / 10, 0], [201 / 1000, - (pi / 5), 201 / 1000, - (pi / 5)]]" 0]
    construction_and_tick_unchecked[of 0 0 1 1 1 0 euler_odeint sample_net "- 1"
      "[[1 / 10, 0, 1 / 10, 0], [201 / 1000, - (pi / 5), 201 / 1000, - (pi / 5)]]" 0]
    sample_backward_tick
  by (simp add: blank_net_def gait_weights_def tripod_phases_def mat_of_def zeros2_def
      sample_net_def upt_2 eval_nat_numeral)

text \<open>
  Claim C6 as stated fails: \<^verbatim>\<open>CoupledOscillatorNetwork(0)\<close> is constructed, and a tick
  with \<open>dt = -1\<close> (here with the Euler integrator) stores a new state vector.
\<close>

theorem unvalidated_input_counterexample:
  "init_net 1 0 1 1 1 0 = Inr (blank_net 0 1 1 1 0) \<and>
   update euler_odeint 0 (Some (- 1)) sample_net =
     Inr (sample_net\<lparr>state := [201 / 1000, - (pi / 5), 201 / 1000, - (pi / 5)]\<rparr>,
          [201 / 1000, 201 / 1000])"
proof -
  have "init_net 1 0 1 1 1 0 = Inr (blank_net 0 1 1 1 0)"
    by (simp add: init_net_def set_tripod_gait_nl_eq blank_net_def gait_weights_def
        tripod_phases_def mat_of_def zeros2_def)
  moreover have "update euler_odeint 0 (Some (- 1)) sample_net =
     Inr (sample_net\<lparr>state := [201 / 1000, - (pi / 5), 201 / 1000, - (pi / 5)]\<rparr>,
          [201 / 1000, 201 / 1000])"
    using sample_backward_tick
    by (simp add: update_def step_size_def outputs_def sample_net_def upt_2 eval_nat_numeral)
  ultimately show ?thesis by simp
qed

end
